theory Spec2Isabelle
  imports Complex_Main "HOL-Library.List_Lexorder" "HOL-Library.Char_ord"
begin

section \<open>Training script of the image-to-image denoiser\<close>

text \<open>
  A shallow embedding of \<^verbatim>\<open>04_train_img_to_img_denoiser.py\<close>. The script is a flat
  sequence of statements; every block of it is one definition below, in the order of the
  source. Calls into libraries (\<^verbatim>\<open>json\<close>, \<^verbatim>\<open>torch\<close>, the dataset and the model registry)
  are parameters of the model: a record of functions for the numeric framework, and
  arguments for \<^verbatim>\<open>json.loads\<close> and \<^verbatim>\<open>Path.glob\<close>.
\<close>

subsection \<open>Values and exceptions\<close>

text \<open>What \<^verbatim>\<open>json.loads\<close> returns: \<^verbatim>\<open>None\<close>, a bool, an int, a float, a string, a
  list or a dict (in insertion order).\<close>

datatype json =
    JNull
  | JBool bool
  | JInt int
  | JFloat real
  | JString string
  | JArray "json list"
  | JObject "(string \<times> json) list"

text \<open>The exceptions the script itself can raise or let through.\<close>

datatype error =
    ArgumentTypeError string
  | SystemExit string
  | ValueError
  | RuntimeError
  | IndexError
  | FileExistsError

text \<open>An element of a float tensor: \<open>NaN\<close> or a number. Rounding is not modelled, and the
  infinities are not told apart from large numbers.\<close>

datatype fval = NaN | Fin real

text \<open>\<^verbatim>\<open>a > b\<close> on floats: false as soon as one side is \<open>NaN\<close>.\<close>

fun gt :: "fval \<Rightarrow> fval \<Rightarrow> bool" where
  "gt (Fin a) (Fin b) = (b < a)"
| "gt _ _ = False"

fun is_nan :: "fval \<Rightarrow> bool" where
  "is_nan NaN = True"
| "is_nan (Fin _) = False"

fun the_fin :: "fval \<Rightarrow> real" where
  "the_fin (Fin a) = a"
| "the_fin NaN = 0"

text \<open>\<^verbatim>\<open>t.max()\<close>: a \<^verbatim>\<open>RuntimeError\<close> on a tensor with no element, \<open>NaN\<close> when an
  element is \<open>NaN\<close>, the largest element otherwise.\<close>

definition tensor_max :: "fval list \<Rightarrow> error + fval" where
  "tensor_max xs =
     (if xs = [] then Inl RuntimeError
      else if list_ex is_nan xs then Inr NaN
      else Inr (Fin (Max (set (map the_fin xs)))))"

text \<open>\<^verbatim>\<open>t.mean()\<close>: \<open>NaN\<close> on a tensor with no element (no exception), and when an
  element is \<open>NaN\<close>.\<close>

definition tensor_mean :: "fval list \<Rightarrow> fval" where
  "tensor_mean xs =
     (if xs = [] \<or> list_ex is_nan xs then NaN
      else Fin (sum_list (map the_fin xs) / real (length xs)))"

text \<open>\<^verbatim>\<open>t[i]\<close> and \<^verbatim>\<open>t[i] = v\<close> for \<open>0 \<le> i\<close>: an \<^verbatim>\<open>IndexError\<close> out of range.\<close>

definition tensor_get :: "fval list \<Rightarrow> nat \<Rightarrow> error + fval" where
  "tensor_get xs i = (if i < length xs then Inr (xs ! i) else Inl IndexError)"

definition tensor_set :: "fval list \<Rightarrow> nat \<Rightarrow> fval \<Rightarrow> error + fval list" where
  "tensor_set xs i v = (if i < length xs then Inr (xs[i := v]) else Inl IndexError)"

text \<open>\<^verbatim>\<open>torch.zeros(n)\<close>: a \<^verbatim>\<open>RuntimeError\<close> for a negative size.\<close>

definition zeros :: "int \<Rightarrow> error + fval list" where
  "zeros n = (if n < 0 then Inl RuntimeError else Inr (replicate (nat n) (Fin 0)))"

subsection \<open>Lines 19-28: the parser of \<^verbatim>\<open>--model_kwargs\<close>\<close>

text \<open>\<open>json_loads\<close> stands for \<^verbatim>\<open>json.loads\<close>: \<open>Inl msg\<close> is a
  \<^verbatim>\<open>json.JSONDecodeError\<close> with the text \<open>msg\<close>, the only exception the source catches.\<close>

definition parse_json_model_kwargs ::
  "(string \<Rightarrow> string + json) \<Rightarrow> string \<Rightarrow> error + (string \<times> json) list" where
  "parse_json_model_kwargs json_loads arg =
     (case json_loads arg of
        Inl e \<Rightarrow> Inl (ArgumentTypeError (''Invalid JSON for --model-kwargs: '' @ e))
      | Inr obj \<Rightarrow>
          (case obj of
             JObject d \<Rightarrow> Inr d
           | _ \<Rightarrow> Inl (ArgumentTypeError ''--model-kwargs must be a JSON object (i.e. dict)'')))"

subsection \<open>Lines 31-90: the command line\<close>

text \<open>The command line after \<^verbatim>\<open>argparse\<close> has split it: the numbers already converted
  (\<^verbatim>\<open>type=int\<close>, \<^verbatim>\<open>type=float\<close>), the model keyword arguments still the raw string,
  absent when the option is not given.\<close>

record cmdline =
  c_model_class :: string
  c_model_kwargs :: "string option"
  c_num_epochs :: int
  c_lr :: real
  c_num_training_samples :: int
  c_tr_batch_size :: int
  c_num_validation_samples :: int
  c_val_batch_size :: int
  c_seed :: int
  c_print_gradient_norms :: bool
  c_count_level :: real

record args =
  model_class :: string
  model_kwargs :: "(string \<times> json) list"
  num_epochs :: int
  lr :: real
  num_training_samples :: int
  tr_batch_size :: int
  num_validation_samples :: int
  val_batch_size :: int
  seed :: int
  print_gradient_norms :: bool
  count_level :: real

text \<open>\<^verbatim>\<open>parser.parse_args()\<close>: the model class must be a key of the registry
  (\<^verbatim>\<open>choices\<close>); \<^verbatim>\<open>type=parse_json_model_kwargs\<close> is applied to the option's string, the
  default \<^verbatim>\<open>{}\<close> is taken as it is. \<^verbatim>\<open>argparse\<close> reports an \<^verbatim>\<open>ArgumentTypeError\<close> by
  leaving the process with its message after the name of the argument. Which of two
  wrong arguments it reports depends on their order on the command line; here the model
  class comes first.\<close>

definition parse_args ::
  "string list \<Rightarrow> (string \<Rightarrow> string + json) \<Rightarrow> cmdline \<Rightarrow> error + args" where
  "parse_args registry_keys json_loads c =
     (if c_model_class c \<notin> set registry_keys
      then Inl (SystemExit ''argument model_class: invalid choice'')
      else
        (case (case c_model_kwargs c of
                 None \<Rightarrow> Inr []
               | Some arg \<Rightarrow> parse_json_model_kwargs json_loads arg) of
           Inl (ArgumentTypeError msg) \<Rightarrow>
             Inl (SystemExit (''argument --model_kwargs: '' @ msg))
         | Inl e \<Rightarrow> Inl e
         | Inr kw \<Rightarrow>
             Inr \<lparr> model_class = c_model_class c, model_kwargs = kw,
                   num_epochs = c_num_epochs c, lr = c_lr c,
                   num_training_samples = c_num_training_samples c,
                   tr_batch_size = c_tr_batch_size c,
                   num_validation_samples = c_num_validation_samples c,
                   val_batch_size = c_val_batch_size c, seed = c_seed c,
                   print_gradient_norms = c_print_gradient_norms c,
                   count_level = c_count_level c \<rparr>))"

subsection \<open>Lines 110-133: the split of the data directories\<close>

text \<open>A bound \<open>i\<close> of a Python slice against a sequence of length \<open>n\<close>: a negative bound
  counts from the end, and every bound is clipped to \<open>0..n\<close>.\<close>

definition slice_bound :: "nat \<Rightarrow> int \<Rightarrow> nat" where
  "slice_bound n i = (if i < 0 then nat (int n + i) else min n (nat i))"

text \<open>\<^verbatim>\<open>xs[lo:hi]\<close>, an absent bound being \<open>None\<close>. A slice never raises.\<close>

definition py_slice :: "'a list \<Rightarrow> int option \<Rightarrow> int option \<Rightarrow> 'a list" where
  "py_slice xs lo hi =
     (let n = length xs;
          a = (case lo of None \<Rightarrow> 0 | Some i \<Rightarrow> slice_bound n i);
          b = (case hi of None \<Rightarrow> n | Some j \<Rightarrow> slice_bound n j)
      in drop a (take b xs))"

text \<open>Line 110: \<open>found\<close> is what \<^verbatim>\<open>Path.glob\<close> yields for the pattern of the count level,
  the directories by their names (they share one parent, so paths are ordered as their
  names are, character by character).\<close>

definition all_data_dirs :: "string list \<Rightarrow> string list" where
  "all_data_dirs found = sort found"

definition train_dirs :: "args \<Rightarrow> string list \<Rightarrow> string list" where
  "train_dirs a dirs = py_slice dirs None (Some (num_training_samples a))"

definition val_dirs :: "args \<Rightarrow> string list \<Rightarrow> string list" where
  "val_dirs a dirs =
     py_slice dirs (Some (num_training_samples a))
       (Some (num_training_samples a + num_validation_samples a))"

subsection \<open>Lines 124-128 and 142-145: the loaders\<close>

text \<open>\<^verbatim>\<open>DataLoader(dataset, batch_size=b, drop_last=d)\<close> over the samples the dataset yields:
  consecutive batches of \<open>b\<close> samples, the last one shorter when the samples run out.
  With \<^verbatim>\<open>drop_last=True\<close> a last batch that is shorter than \<open>b\<close> is left out;
  \<^verbatim>\<open>drop_last\<close> is \<^verbatim>\<open>False\<close> when it is not given.\<close>

fun chunks :: "nat \<Rightarrow> 'a list \<Rightarrow> 'a list list" where
  "chunks b xs = (if b = 0 \<or> xs = [] then [] else take b xs # chunks b (drop b xs))"

declare chunks.simps [simp del]

definition loader_batches :: "nat \<Rightarrow> bool \<Rightarrow> 'a list \<Rightarrow> 'a list list" where
  "loader_batches b drop_last xs =
     (if drop_last then filter (\<lambda>c. length c = b) (chunks b xs) else chunks b xs)"

text \<open>The constructor of \<^verbatim>\<open>DataLoader\<close> refuses a batch size that is not positive.\<close>

definition data_loader :: "int \<Rightarrow> error + nat" where
  "data_loader batch_size = (if batch_size \<le> 0 then Inl ValueError else Inr (nat batch_size))"

subsection \<open>File names of the run directory\<close>

text \<open>\<^verbatim>\<open>f"{n:04}"\<close> for \<open>0 \<le> n\<close>: the decimal digits, with zeros in front up to four
  characters.\<close>

definition digit :: "nat \<Rightarrow> char" where
  "digit d = char_of (48 + d)"

fun decimal :: "nat \<Rightarrow> string" where
  "decimal n = (if n < 10 then [digit n] else decimal (n div 10) @ [digit (n mod 10)])"

declare decimal.simps [simp del]

definition zero_pad :: "nat \<Rightarrow> nat \<Rightarrow> string" where
  "zero_pad w n = replicate (w - length (decimal n)) (CHR ''0'') @ decimal n"

definition epoch_file :: "nat \<Rightarrow> string" where
  "epoch_file epoch = ''epoch_'' @ zero_pad 4 epoch @ ''.pth''"

subsection \<open>The world of a run: files, effects, the state of the loop\<close>

datatype mode = Training | Evaluation

text \<open>The dictionary handed to \<^verbatim>\<open>torch.save\<close> at the end of an epoch, with the keys of
  the source.\<close>

record ('p, 'o) checkpoint =
  ck_model_class :: string
  ck_model_kwargs :: "(string \<times> json) list"
  ck_model_state_dict :: 'p
  ck_optimizer_state_dict :: 'o
  ck_epoch :: nat
  ck_val_pnsr :: fval
  ck_val_loss :: "fval list"

text \<open>What a file of the run directory holds.\<close>

datatype ('p, 'o) entry =
    JsonArgs args
  | JsonDirs "string list"
  | Checkpoint "('p, 'o) checkpoint"
  | Symlink string
  | Figure "fval list" "fval list" "fval list"

text \<open>What \<^verbatim>\<open>print\<close> writes, by the statement that prints it; the text of the numbers
  is not modelled.\<close>

datatype line =
    ArgsSaved
  | GradNorm string bool
  | Blank
  | BatchProgress nat nat nat
  | TrainSummary nat
  | ValLoss nat
  | ValPsnr nat
  | BestLinked string

text \<open>The effects of the script, in the order they happen.\<close>

datatype ('p, 'o) event =
    Mkdir string
  | Write string "('p, 'o) entry"
  | Print line
  | ManualSeed int
  | MakeDataset "string list" bool
  | MakeLoader nat bool
  | MakeModel string "(string \<times> json) list"
  | MakeOptimizer real
  | SetMode mode
  | ZeroGrad
  | Forward mode bool
  | Backward
  | Step 'p
  | PlotBatch string
  | Unlink string
  | SymlinkTo string string

text \<open>The run directory (file names to contents) and the effects so far; the state of
  the training loop adds the variables of the script.\<close>

record ('p, 'o) world =
  files :: "string \<rightharpoonup> ('p, 'o) entry"
  trace :: "('p, 'o) event list"

record ('p, 'o) state = "('p, 'o) world" +
  params :: 'p
  opt :: 'o
  mode :: mode
  grad_enabled :: bool
  val_psnr :: "fval list"
  val_loss_avg :: "fval list"
  train_loss_avg :: "fval list"

text \<open>A run ends with an exception and the world as it was left, or with the final
  state.\<close>

type_synonym ('p, 'o, 'a) outcome = "(error \<times> ('p, 'o) world) + 'a"

definition emit :: "('p, 'o) event \<Rightarrow> ('p, 'o, 'z) world_scheme \<Rightarrow> ('p, 'o, 'z) world_scheme" where
  "emit e w = w\<lparr>trace := trace w @ [e]\<rparr>"

definition print_lines :: "line list \<Rightarrow> ('p, 'o, 'z) world_scheme \<Rightarrow> ('p, 'o, 'z) world_scheme" where
  "print_lines ls w = w\<lparr>trace := trace w @ map Print ls\<rparr>"

definition write_file ::
  "string \<Rightarrow> ('p, 'o) entry \<Rightarrow> ('p, 'o, 'z) world_scheme \<Rightarrow> ('p, 'o, 'z) world_scheme" where
  "write_file name f w = w\<lparr>files := (files w)(name \<mapsto> f), trace := trace w @ [Write name f]\<rparr>"

definition unlink :: "string \<Rightarrow> ('p, 'o, 'z) world_scheme \<Rightarrow> ('p, 'o, 'z) world_scheme" where
  "unlink name w = w\<lparr>files := (files w)(name := None), trace := trace w @ [Unlink name]\<rparr>"

definition raise :: "error \<Rightarrow> ('p, 'o, 'z) world_scheme \<Rightarrow> ('p, 'o, 'a) outcome" where
  "raise e w = Inl (e, world.truncate w)"

text \<open>\<^verbatim>\<open>Path.symlink_to\<close> refuses a name that is taken.\<close>

definition symlink_to ::
  "string \<Rightarrow> string \<Rightarrow> ('p, 'o) state \<Rightarrow> ('p, 'o, ('p, 'o) state) outcome" where
  "symlink_to name target s =
     (if files s name \<noteq> None then raise FileExistsError s
      else Inr (s\<lparr>files := (files s)(name \<mapsto> Symlink target),
                   trace := trace s @ [SymlinkTo name target]\<rparr>))"

text \<open>A \<^verbatim>\<open>for\<close> loop whose body may raise: the first exception ends it.\<close>

fun for_each :: "('a \<Rightarrow> 'b \<Rightarrow> 'e + 'b) \<Rightarrow> 'a list \<Rightarrow> 'b \<Rightarrow> 'e + 'b" where
  "for_each body [] acc = Inr acc"
| "for_each body (x # xs) acc =
     (case body x acc of Inl e \<Rightarrow> Inl e | Inr acc' \<Rightarrow> for_each body xs acc')"

subsection \<open>The numeric framework\<close>

text \<open>The calls the script makes into \<^verbatim>\<open>torch\<close>, the model registry, the dataset and
  the file system, as functions: \<open>'p\<close> is the state dictionary of the model, \<open>'o\<close> the
  state of the optimizer, \<open>'g\<close> the gradients a backward pass leaves, \<open>'x\<close> a sample.
  An exception inside one of them ends the run and is not modelled.
  \<^item> \<open>glob\<close>: the names \<^verbatim>\<open>Path.glob\<close> yields for the pattern of a count level;
  \<^item> \<open>dataset dirs shuffle k\<close>: the samples the dataset over \<open>dirs\<close> yields in its
    \<open>k\<close>-th pass;
  \<^item> \<open>registry\<close>: \<^verbatim>\<open>DENOISER_MODEL_REGISTRY[model_class](**model_kwargs)\<close>;
  \<^item> \<open>adam\<close>: \<^verbatim>\<open>torch.optim.Adam(model.parameters(), lr=lr)\<close>;
  \<^item> \<open>criterion m p b\<close>: \<^verbatim>\<open>criterion(model(x), target).item()\<close> on the batch \<open>b\<close>, the
    model in mode \<open>m\<close> with parameters \<open>p\<close>;
  \<^item> \<open>backward\<close>: the gradients of that loss; \<open>grad_is_none\<close>: the names of the
    parameters, each with whether its gradient is \<^verbatim>\<open>None\<close>;
  \<^item> \<open>adam_step\<close>: \<^verbatim>\<open>optimizer.step()\<close>;
  \<^item> \<open>psnr\<close>: \<^verbatim>\<open>psnr(model(x), target)\<close> on a batch.
\<close>

record ('p, 'o, 'g, 'x) torch =
  glob :: "real \<Rightarrow> string list"
  dataset :: "string list \<Rightarrow> bool \<Rightarrow> nat \<Rightarrow> 'x list"
  registry :: "string \<Rightarrow> (string \<times> json) list \<Rightarrow> 'p"
  adam :: "'p \<Rightarrow> real \<Rightarrow> 'o"
  criterion :: "mode \<Rightarrow> 'p \<Rightarrow> 'x list \<Rightarrow> fval"
  backward :: "mode \<Rightarrow> 'p \<Rightarrow> 'x list \<Rightarrow> 'g"
  grad_is_none :: "'g \<Rightarrow> (string \<times> bool) list"
  adam_step :: "'p \<Rightarrow> 'o \<Rightarrow> 'g \<Rightarrow> 'p \<times> 'o"
  psnr :: "mode \<Rightarrow> 'p \<Rightarrow> 'x list \<Rightarrow> fval"

subsection \<open>Lines 178-211: the training batches of an epoch\<close>

text \<open>One batch: \<^verbatim>\<open>zero_grad\<close>, forward pass and loss, backward pass, the gradient report
  when it is asked for, the optimizer step, the loss stored at the batch's index.
  \<open>n\<close> is \<^verbatim>\<open>len(train_loader)\<close>.\<close>

definition train_batch ::
  "('p, 'o, 'g, 'x) torch \<Rightarrow> args \<Rightarrow> nat \<Rightarrow> nat \<Rightarrow> nat \<times> 'x list \<Rightarrow>
   ('p, 'o) state \<times> fval list \<Rightarrow> ('p, 'o, ('p, 'o) state \<times> fval list) outcome" where
  "train_batch t a epoch n ib acc =
     (case ib of (batch_idx, batch) \<Rightarrow>
      case acc of (s, batch_losses) \<Rightarrow>
        let s1 = emit ZeroGrad s;
            loss = criterion t (mode s1) (params s1) batch;
            s2 = emit (Forward (mode s1) (grad_enabled s1)) s1;
            g = backward t (mode s2) (params s2) batch;
            s3 = emit Backward s2;
            s4 = (if print_gradient_norms a
                  then print_lines
                         (map (\<lambda>(name, none). GradNorm name none) (grad_is_none t g) @ [Blank]) s3
                  else s3);
            s5 = (case adam_step t (params s4) (opt s4) g of
                    (p, ost) \<Rightarrow> emit (Step p) (s4\<lparr>params := p, opt := ost\<rparr>))
        in case tensor_set batch_losses batch_idx loss of
             Inl e \<Rightarrow> raise e s5
           | Inr bl \<Rightarrow> Inr (emit (Print (BatchProgress epoch (batch_idx + 1) n)) s5, bl))"

definition train_epoch ::
  "('p, 'o, 'g, 'x) torch \<Rightarrow> args \<Rightarrow> nat \<Rightarrow> 'x list list \<Rightarrow>
   ('p, 'o) state \<Rightarrow> ('p, 'o, ('p, 'o) state) outcome" where
  "train_epoch t a epoch batches s =
     (let n = length batches in
      case for_each (train_batch t a epoch n) (enumerate 0 batches) (s, replicate n (Fin 0)) of
        Inl e \<Rightarrow> Inl e
      | Inr (s1, batch_losses) \<Rightarrow>
          (case tensor_set (train_loss_avg s1) (epoch - 1) (tensor_mean batch_losses) of
             Inl e \<Rightarrow> raise e s1
           | Inr tla \<Rightarrow> Inr (emit (Print (TrainSummary epoch)) (s1\<lparr>train_loss_avg := tla\<rparr>))))"

subsection \<open>Lines 213-244: the validation batches of an epoch\<close>

definition val_batch ::
  "('p, 'o, 'g, 'x) torch \<Rightarrow> nat \<times> 'x list \<Rightarrow>
   ('p, 'o) state \<times> fval list \<times> fval list \<Rightarrow>
   ('p, 'o, ('p, 'o) state \<times> fval list \<times> fval list) outcome" where
  "val_batch t ib acc =
     (case ib of (batch_idx, batch) \<Rightarrow>
      case acc of (s, val_losses, batch_psnr) \<Rightarrow>
        let s1 = emit (Forward (mode s) (grad_enabled s)) s;
            val_loss = criterion t (mode s1) (params s1) batch
        in case tensor_set val_losses batch_idx val_loss of
             Inl e \<Rightarrow> raise e s1
           | Inr vl \<Rightarrow>
               (case tensor_set batch_psnr batch_idx (psnr t (mode s1) (params s1) batch) of
                  Inl e \<Rightarrow> raise e s1
                | Inr bp \<Rightarrow>
                    Inr (emit (PlotBatch (''val_sample_batch_'' @ zero_pad 3 batch_idx)) s1,
                         vl, bp)))"

text \<open>\<^verbatim>\<open>model.eval()\<close>, then the batches inside \<^verbatim>\<open>with torch.no_grad()\<close>, which switches
  gradient tracking off and back to what it was.\<close>

definition validate ::
  "('p, 'o, 'g, 'x) torch \<Rightarrow> nat \<Rightarrow> 'x list list \<Rightarrow>
   ('p, 'o) state \<Rightarrow> ('p, 'o, ('p, 'o) state) outcome" where
  "validate t epoch batches s =
     (let s1 = emit (SetMode Evaluation) (s\<lparr>mode := Evaluation\<rparr>);
          was = grad_enabled s1;
          s2 = s1\<lparr>grad_enabled := False\<rparr>;
          n = length batches
      in case for_each (val_batch t) (enumerate 0 batches)
                (s2, replicate n (Fin 0), replicate n (Fin 0)) of
           Inl e \<Rightarrow> Inl e
         | Inr (s3, val_losses, batch_psnr) \<Rightarrow>
             (case tensor_set (val_loss_avg s3) (epoch - 1) (tensor_mean val_losses) of
                Inl e \<Rightarrow> raise e s3
              | Inr vla \<Rightarrow>
                  (case tensor_set (val_psnr s3) (epoch - 1) (tensor_mean batch_psnr) of
                     Inl e \<Rightarrow> raise e (s3\<lparr>val_loss_avg := vla\<rparr>)
                   | Inr vp \<Rightarrow>
                       Inr ((print_lines [ValLoss epoch, ValPsnr epoch]
                              (s3\<lparr>val_loss_avg := vla, val_psnr := vp\<rparr>))
                            \<lparr>grad_enabled := was\<rparr>))))"

subsection \<open>Lines 246-269: the checkpoint and the best model\<close>

definition save_checkpoint ::
  "args \<Rightarrow> nat \<Rightarrow> ('p, 'o) state \<Rightarrow> ('p, 'o, ('p, 'o) state) outcome" where
  "save_checkpoint a epoch s =
     (case tensor_get (val_psnr s) (epoch - 1) of
        Inl e \<Rightarrow> raise e s
      | Inr v \<Rightarrow>
          Inr (write_file (epoch_file epoch)
                 (Checkpoint \<lparr> ck_model_class = model_class a,
                               ck_model_kwargs = model_kwargs a,
                               ck_model_state_dict = params s,
                               ck_optimizer_state_dict = opt s,
                               ck_epoch = epoch,
                               ck_val_pnsr = v,
                               ck_val_loss = val_loss_avg s \<rparr>) s))"

text \<open>Line 261: \<^verbatim>\<open>epoch == 1 or val_psnr[epoch - 1] > val_psnr[: epoch - 1].max()\<close>; the
  right side of \<^verbatim>\<open>or\<close> is evaluated only when the left side is false.\<close>

definition is_best :: "nat \<Rightarrow> fval list \<Rightarrow> error + bool" where
  "is_best epoch vp =
     (if epoch = 1 then Inr True
      else
        (case tensor_get vp (epoch - 1) of
           Inl e \<Rightarrow> Inl e
         | Inr v \<Rightarrow>
             (case tensor_max (py_slice vp None (Some (int epoch - 1))) of
                Inl e \<Rightarrow> Inl e
              | Inr m \<Rightarrow> Inr (gt v m))))"

text \<open>Lines 262-269: \<^verbatim>\<open>best.pth\<close> is removed when the name is taken (a file, or a
  link even when its target is gone), and linked to the checkpoint of the epoch.\<close>

definition update_best :: "nat \<Rightarrow> ('p, 'o) state \<Rightarrow> ('p, 'o, ('p, 'o) state) outcome" where
  "update_best epoch s =
     (case is_best epoch (val_psnr s) of
        Inl e \<Rightarrow> raise e s
      | Inr False \<Rightarrow> Inr s
      | Inr True \<Rightarrow>
          (let s1 = (if files s ''best.pth'' \<noteq> None then unlink ''best.pth'' s else s)
           in case symlink_to ''best.pth'' (epoch_file epoch) s1 of
                Inl e \<Rightarrow> Inl e
              | Inr s2 \<Rightarrow> Inr (emit (Print (BestLinked (epoch_file epoch))) s2)))"

subsection \<open>Lines 271-292: the figure of the metrics\<close>

definition plot_metrics :: "nat \<Rightarrow> ('p, 'o) state \<Rightarrow> ('p, 'o) state" where
  "plot_metrics epoch s =
     write_file ''current_metrics.pdf''
       (Figure (py_slice (train_loss_avg s) None (Some (int epoch)))
               (py_slice (val_loss_avg s) None (Some (int epoch)))
               (py_slice (val_psnr s) None (Some (int epoch)))) s"

subsection \<open>Lines 176-292: the loop over the epochs\<close>

text \<open>\<open>train_loader k\<close> and \<open>val_loader k\<close> are the batches the loaders yield in epoch
  \<open>k\<close>.\<close>

definition epoch_body ::
  "('p, 'o, 'g, 'x) torch \<Rightarrow> args \<Rightarrow> (nat \<Rightarrow> 'x list list) \<Rightarrow> (nat \<Rightarrow> 'x list list) \<Rightarrow>
   nat \<Rightarrow> ('p, 'o) state \<Rightarrow> ('p, 'o, ('p, 'o) state) outcome" where
  "epoch_body t a train_loader val_loader epoch s =
     (case train_epoch t a epoch (train_loader epoch) s of
        Inl e \<Rightarrow> Inl e
      | Inr s1 \<Rightarrow>
     (case validate t epoch (val_loader epoch) s1 of
        Inl e \<Rightarrow> Inl e
      | Inr s2 \<Rightarrow>
     (case save_checkpoint a epoch s2 of
        Inl e \<Rightarrow> Inl e
      | Inr s3 \<Rightarrow>
     (case update_best epoch s3 of
        Inl e \<Rightarrow> Inl e
      | Inr s4 \<Rightarrow> Inr (plot_metrics epoch s4)))))"

text \<open>\<^verbatim>\<open>model.train()\<close> once, then \<^verbatim>\<open>for epoch in range(1, num_epochs + 1)\<close>.\<close>

definition epochs :: "args \<Rightarrow> nat list" where
  "epochs a = [1..<Suc (nat (num_epochs a))]"

definition training ::
  "('p, 'o, 'g, 'x) torch \<Rightarrow> args \<Rightarrow> (nat \<Rightarrow> 'x list list) \<Rightarrow> (nat \<Rightarrow> 'x list list) \<Rightarrow>
   ('p, 'o) state \<Rightarrow> ('p, 'o, ('p, 'o) state) outcome" where
  "training t a train_loader val_loader s =
     for_each (epoch_body t a train_loader val_loader) (epochs a)
       (emit (SetMode Training) (s\<lparr>mode := Training\<rparr>))"

subsection \<open>Lines 77-292: the script\<close>

text \<open>\<open>run_dir\<close> is the content of the run directory when the script starts. A module
  is in training mode when it is made, and gradient tracking is on.\<close>

definition script ::
  "('p, 'o, 'g, 'x) torch \<Rightarrow> string list \<Rightarrow> (string \<Rightarrow> string + json) \<Rightarrow> string \<Rightarrow>
   (string \<rightharpoonup> ('p, 'o) entry) \<Rightarrow> cmdline \<Rightarrow> ('p, 'o, ('p, 'o) state) outcome" where
  "script t registry_keys json_loads run_id run_dir c =
     (let w0 = \<lparr> files = run_dir, trace = [] \<rparr> in
      case parse_args registry_keys json_loads c of
        Inl e \<Rightarrow> raise e w0
      | Inr a \<Rightarrow>
     (let w1 = emit (Mkdir (''checkpoints_denoiser/'' @ model_class a @ ''_run_'' @ run_id)) w0;
          w2 = emit (Print ArgsSaved) (write_file ''args.json'' (JsonArgs a) w1);
          w3 = emit (ManualSeed (seed a)) w2;
          dirs = all_data_dirs (glob t (count_level a));
          w4 = write_file ''train_dirs.json'' (JsonDirs (train_dirs a dirs)) w3;
          w5 = emit (MakeDataset (train_dirs a dirs) True) w4
      in case data_loader (tr_batch_size a) of
           Inl e \<Rightarrow> raise e w5
         | Inr trb \<Rightarrow>
     (let w6 = emit (MakeLoader trb True) w5;
          w7 = write_file ''val_dirs.json'' (JsonDirs (val_dirs a dirs)) w6;
          w8 = emit (MakeDataset (val_dirs a dirs) False) w7
      in case data_loader (val_batch_size a) of
           Inl e \<Rightarrow> raise e w8
         | Inr vb \<Rightarrow>
     (let w9 = emit (MakeLoader vb False) w8;
          p = registry t (model_class a) (model_kwargs a);
          w10 = emit (MakeModel (model_class a) (model_kwargs a)) w9;
          ost = adam t p (lr a);
          w11 = emit (MakeOptimizer (lr a)) w10
      in case zeros (num_epochs a) of
           Inl e \<Rightarrow> raise e w11
         | Inr z \<Rightarrow>
             training t a
               (\<lambda>k. loader_batches trb True (dataset t (train_dirs a dirs) True k))
               (\<lambda>k. loader_batches vb False (dataset t (val_dirs a dirs) False k))
               \<lparr> files = files w11, trace = trace w11, params = p, opt = ost,
                 mode = Training, grad_enabled = True,
                 val_psnr = z, val_loss_avg = z, train_loss_avg = z \<rparr>))))"

subsection \<open>A sample run\<close>

text \<open>The defaults of the command line, with two training directories, one validation
  directory and five epochs.\<close>

definition example_args :: args where
  "example_args =
     \<lparr> model_class = ''UNet3D'', model_kwargs = [], num_epochs = 5, lr = 3 / 10000,
       num_training_samples = 2, tr_batch_size = 2, num_validation_samples = 1,
       val_batch_size = 1, seed = 42, print_gradient_norms = False, count_level = 1 \<rparr>"

definition example_cmdline :: cmdline where
  "example_cmdline =
     \<lparr> c_model_class = ''UNet3D'', c_model_kwargs = None, c_num_epochs = 5,
       c_lr = 3 / 10000, c_num_training_samples = 2, c_tr_batch_size = 2,
       c_num_validation_samples = 1, c_val_batch_size = 1, c_seed = 42,
       c_print_gradient_norms = False, c_count_level = 1 \<rparr>"

text \<open>A stand-in for the numeric framework: the parameters count the optimizer steps, a
  sample is the name of its directory, and the validation PSNR after \<open>p\<close> steps is
  \<open>example_psnr p\<close>.\<close>

definition example_psnr :: "nat \<Rightarrow> real" where
  "example_psnr p =
     (if p = 1 then 5 / 10 else if p = 2 then 7 / 10 else if p = 3 then 6 / 10 else 9 / 10)"

definition example_torch :: "(nat, unit, unit, string) torch" where
  "example_torch =
     \<lparr> glob = (\<lambda>level. [''s3'', ''s1'', ''s2'', ''s4'']),
       dataset = (\<lambda>dirs shuffle k. dirs),
       registry = (\<lambda>name kwargs. 0),
       adam = (\<lambda>p rate. ()),
       criterion = (\<lambda>m p batch. Fin (1 / real (Suc p))),
       backward = (\<lambda>m p batch. ()),
       grad_is_none = (\<lambda>g. [(''weight'', False)]),
       adam_step = (\<lambda>p ost g. (Suc p, ost)),
       psnr = (\<lambda>m p batch. Fin (example_psnr p)) \<rparr>"

text \<open>A stand-in for \<^verbatim>\<open>json.loads\<close> on three strings.\<close>

definition example_loads :: "string \<Rightarrow> string + json" where
  "example_loads arg =
     (if arg = ''{}'' then Inr (JObject [])
      else if arg = ''[8, 16]'' then Inr (JArray [JInt 8, JInt 16])
      else Inl ''Expecting value: line 1 column 1 (char 0)'')"

subsection \<open>Views of the effects\<close>

text \<open>The effects on the mode of the model and its forward passes, on the run directory,
  and on the parameters.\<close>

fun is_mode_event :: "('p, 'o) event \<Rightarrow> bool" where
  "is_mode_event (SetMode m) = True"
| "is_mode_event (Forward m g) = True"
| "is_mode_event _ = False"

fun is_fs_event :: "('p, 'o) event \<Rightarrow> bool" where
  "is_fs_event (Mkdir d) = True"
| "is_fs_event (Write name f) = True"
| "is_fs_event (Unlink name) = True"
| "is_fs_event (SymlinkTo name target) = True"
| "is_fs_event _ = False"

fun is_update_event :: "('p, 'o) event \<Rightarrow> bool" where
  "is_update_event ZeroGrad = True"
| "is_update_event Backward = True"
| "is_update_event (Step p) = True"
| "is_update_event _ = False"

definition mode_view :: "('p, 'o) event list \<Rightarrow> ('p, 'o) event list" where
  "mode_view tr = filter is_mode_event tr"

definition fs_view :: "('p, 'o) event list \<Rightarrow> ('p, 'o) event list" where
  "fs_view tr = filter is_fs_event tr"

definition update_view :: "('p, 'o) event list \<Rightarrow> ('p, 'o) event list" where
  "update_view tr = filter is_update_event tr"

text \<open>What no batch changes: the run directory, the mode of the model, gradient
  tracking, and the tensors of the metrics.\<close>

definition frame :: "('p, 'o) state \<Rightarrow> ('p, 'o) state \<Rightarrow> bool" where
  "frame s s' \<longleftrightarrow>
     files s' = files s \<and> mode s' = mode s \<and> grad_enabled s' = grad_enabled s \<and>
     val_psnr s' = val_psnr s \<and> val_loss_avg s' = val_loss_avg s \<and>
     train_loss_avg s' = train_loss_avg s \<and> fs_view (trace s') = fs_view (trace s)"

text \<open>What no validation batch changes: the parameters and the state of the optimizer.\<close>

definition frozen :: "('p, 'o) state \<Rightarrow> ('p, 'o) state \<Rightarrow> bool" where
  "frozen s s' \<longleftrightarrow>
     params s' = params s \<and> opt s' = opt s \<and>
     update_view (trace s') = update_view (trace s)"

text \<open>The tensors of the metrics have one element for each epoch.\<close>

definition sized :: "nat \<Rightarrow> ('p, 'o) state \<Rightarrow> bool" where
  "sized n s \<longleftrightarrow>
     length (val_psnr s) = n \<and> length (val_loss_avg s) = n \<and> length (train_loss_avg s) = n"

subsection \<open>What an epoch leaves behind\<close>

text \<open>Reading a decimal string back.\<close>

definition decimal_value :: "string \<Rightarrow> nat" where
  "decimal_value cs = foldl (\<lambda>v c. 10 * v + (of_char c - 48)) 0 cs"

text \<open>The checkpoint and the figure of an epoch, from the state at its end.\<close>

definition checkpoint_of :: "args \<Rightarrow> nat \<Rightarrow> ('p, 'o) state \<Rightarrow> ('p, 'o) checkpoint" where
  "checkpoint_of a epoch s =
     \<lparr> ck_model_class = model_class a, ck_model_kwargs = model_kwargs a,
       ck_model_state_dict = params s, ck_optimizer_state_dict = opt s,
       ck_epoch = epoch, ck_val_pnsr = val_psnr s ! (epoch - 1),
       ck_val_loss = val_loss_avg s \<rparr>"

definition figure_of :: "nat \<Rightarrow> ('p, 'o) state \<Rightarrow> ('p, 'o) entry" where
  "figure_of epoch s =
     Figure (take epoch (train_loss_avg s)) (take epoch (val_loss_avg s))
       (take epoch (val_psnr s))"

text \<open>The words of the specification for the best model: the epoch is the first one, or
  its validation PSNR is strictly greater than that of every earlier epoch.\<close>

definition new_best :: "nat \<Rightarrow> fval list \<Rightarrow> bool" where
  "new_best epoch vp \<longleftrightarrow>
     epoch = 1 \<or> list_all (gt (vp ! (epoch - 1))) (take (epoch - 1) vp)"

text \<open>What one epoch does to the state \<open>s\<close>, when \<open>ntr\<close> training batches and \<open>nval\<close>
  validation batches are loaded: the mode, the validation PSNR of the earlier epochs, the
  forward passes, and the files written.\<close>

definition epoch_step ::
  "args \<Rightarrow> nat \<Rightarrow> nat \<Rightarrow> nat \<Rightarrow> ('p, 'o) state \<Rightarrow> ('p, 'o) state \<Rightarrow> bool" where
  "epoch_step a ntr nval epoch s s' \<longleftrightarrow>
     mode s' = Evaluation \<and> grad_enabled s' = grad_enabled s \<and>
     take (epoch - 1) (val_psnr s') = take (epoch - 1) (val_psnr s) \<and>
     (if nval = 0 then val_psnr s' ! (epoch - 1) = NaN else True) \<and>
     mode_view (trace s') =
       mode_view (trace s) @ replicate ntr (Forward (mode s) (grad_enabled s)) @
       SetMode Evaluation # replicate nval (Forward Evaluation False) \<and>
     fs_view (trace s') =
       fs_view (trace s) @
       Write (epoch_file epoch) (Checkpoint (checkpoint_of a epoch s')) #
       (if new_best epoch (val_psnr s')
        then (if files s ''best.pth'' \<noteq> None then [Unlink ''best.pth''] else []) @
             [SymlinkTo ''best.pth'' (epoch_file epoch)]
        else []) @
       [Write ''current_metrics.pdf'' (figure_of epoch s')] \<and>
     files s' =
       (if new_best epoch (val_psnr s')
        then (files s)(epoch_file epoch \<mapsto> Checkpoint (checkpoint_of a epoch s'),
                       ''best.pth'' \<mapsto> Symlink (epoch_file epoch),
                       ''current_metrics.pdf'' \<mapsto> figure_of epoch s')
        else (files s)(epoch_file epoch \<mapsto> Checkpoint (checkpoint_of a epoch s'),
                       ''current_metrics.pdf'' \<mapsto> figure_of epoch s'))"

text \<open>The variables of the script and the forward passes are the same in both states;
  files and other effects may differ.\<close>

definition same_vars :: "('p, 'o) state \<Rightarrow> ('p, 'o) state \<Rightarrow> bool" where
  "same_vars s s' \<longleftrightarrow>
     params s' = params s \<and> opt s' = opt s \<and> mode s' = mode s \<and>
     grad_enabled s' = grad_enabled s \<and> val_psnr s' = val_psnr s \<and>
     val_loss_avg s' = val_loss_avg s \<and> train_loss_avg s' = train_loss_avg s \<and>
     mode_view (trace s') = mode_view (trace s) \<and>
     update_view (trace s') = update_view (trace s)"

text \<open>The forward passes and mode switches of the epochs \<open>es\<close>, when the model
  starts in mode \<open>m0\<close> and gradient tracking is \<open>g\<close>.\<close>

definition mode_trace ::
  "mode \<Rightarrow> bool \<Rightarrow> (nat \<Rightarrow> 'x list list) \<Rightarrow> (nat \<Rightarrow> 'x list list) \<Rightarrow> nat list \<Rightarrow> ('p, 'o) event list" where
  "mode_trace m0 g train_loader val_loader es =
     concat (map (\<lambda>e.
       replicate (length (train_loader e)) (Forward (if e = 1 then m0 else Evaluation) g) @
       SetMode Evaluation # replicate (length (val_loader e)) (Forward Evaluation False)) es)"

text \<open>The targets \<^verbatim>\<open>best.pth\<close> is linked to, and the names of the checkpoints saved, in
  the order of the effects.\<close>

fun link_target :: "('p, 'o) event \<Rightarrow> string option" where
  "link_target (SymlinkTo name target) = (if name = ''best.pth'' then Some target else None)"
| "link_target _ = None"

definition link_targets :: "('p, 'o) event list \<Rightarrow> string list" where
  "link_targets tr = List.map_filter link_target tr"

fun saved_name :: "('p, 'o) event \<Rightarrow> string option" where
  "saved_name (Write name (Checkpoint c)) = Some name"
| "saved_name _ = None"

definition saved :: "('p, 'o) event list \<Rightarrow> string list" where
  "saved tr = List.map_filter saved_name tr"

fun figure_name :: "('p, 'o) event \<Rightarrow> string option" where
  "figure_name (Write name (Figure tla vla vp)) = Some name"
| "figure_name _ = None"

definition figures :: "('p, 'o) event list \<Rightarrow> string list" where
  "figures tr = List.map_filter figure_name tr"

text \<open>The state at line 176, where the loop starts, and the batches of the two loaders
  in epoch \<open>k\<close>.\<close>

definition train_batches :: "('p, 'o, 'g, 'x) torch \<Rightarrow> args \<Rightarrow> nat \<Rightarrow> 'x list list" where
  "train_batches t a =
     (\<lambda>k. loader_batches (nat (tr_batch_size a)) True
       (dataset t (train_dirs a (all_data_dirs (glob t (count_level a)))) True k))"

definition val_batches :: "('p, 'o, 'g, 'x) torch \<Rightarrow> args \<Rightarrow> nat \<Rightarrow> 'x list list" where
  "val_batches t a =
     (\<lambda>k. loader_batches (nat (val_batch_size a)) False
       (dataset t (val_dirs a (all_data_dirs (glob t (count_level a)))) False k))"

definition start_state ::
  "('p, 'o, 'g, 'x) torch \<Rightarrow> args \<Rightarrow> string \<Rightarrow> (string \<rightharpoonup> ('p, 'o) entry) \<Rightarrow> ('p, 'o) state" where
  "start_state t a run_id run_dir =
     (let dirs = all_data_dirs (glob t (count_level a));
          p = registry t (model_class a) (model_kwargs a);
          z = replicate (nat (num_epochs a)) (Fin 0)
      in \<lparr> files = run_dir(''args.json'' \<mapsto> JsonArgs a,
                          ''train_dirs.json'' \<mapsto> JsonDirs (train_dirs a dirs),
                          ''val_dirs.json'' \<mapsto> JsonDirs (val_dirs a dirs)),
           trace =
             [Mkdir (''checkpoints_denoiser/'' @ model_class a @ ''_run_'' @ run_id),
              Write ''args.json'' (JsonArgs a), Print ArgsSaved, ManualSeed (seed a),
              Write ''train_dirs.json'' (JsonDirs (train_dirs a dirs)),
              MakeDataset (train_dirs a dirs) True, MakeLoader (nat (tr_batch_size a)) True,
              Write ''val_dirs.json'' (JsonDirs (val_dirs a dirs)),
              MakeDataset (val_dirs a dirs) False, MakeLoader (nat (val_batch_size a)) False,
              MakeModel (model_class a) (model_kwargs a), MakeOptimizer (lr a)],
           params = p, opt = adam t p (lr a), mode = Training, grad_enabled = True,
           val_psnr = z, val_loss_avg = z, train_loss_avg = z \<rparr>)"

subsection \<open>Two runs that differ in the flag of the gradient norms\<close>

text \<open>The lines printed when \<^verbatim>\<open>print_gradient_norms\<close> is set, and the write of the
  arguments, which records the flag.\<close>

fun is_grad_norm_line :: "('p, 'o) event \<Rightarrow> bool" where
  "is_grad_norm_line (Print (GradNorm name none)) = True"
| "is_grad_norm_line (Print Blank) = True"
| "is_grad_norm_line _ = False"

fun is_args_write :: "('p, 'o) event \<Rightarrow> bool" where
  "is_args_write (Write name (JsonArgs a)) = True"
| "is_args_write _ = False"

text \<open>The second world is the first one without the lines of the gradient norms: apart
  from the file and the write of the arguments, the files are the same and the effects of
  the second are those of the first that are no such line.\<close>

definition flag_only_prints ::
  "('p, 'o, 'y) world_scheme \<Rightarrow> ('p, 'o, 'z) world_scheme \<Rightarrow> bool" where
  "flag_only_prints w w' \<longleftrightarrow>
     (files w')(''args.json'' := None) = (files w)(''args.json'' := None) \<and>
     filter (\<lambda>e. \<not> is_args_write e) (trace w') =
       filter (\<lambda>e. \<not> is_grad_norm_line e \<and> \<not> is_args_write e) (trace w)"

text \<open>Two runs end the same way: with the same exception, or both with a final state, the
  results related by \<open>R\<close>.\<close>

definition same_end ::
  "('a \<Rightarrow> 'b \<Rightarrow> bool) \<Rightarrow> ('p, 'o, 'a) outcome \<Rightarrow> ('p, 'o, 'b) outcome \<Rightarrow> bool" where
  "same_end R r r' =
     (case r of
        Inl (e, w) \<Rightarrow> (case r' of Inl (e', w') \<Rightarrow> e' = e \<and> flag_only_prints w w' | Inr x' \<Rightarrow> False)
      | Inr x \<Rightarrow> (case r' of Inl (e', w') \<Rightarrow> False | Inr x' \<Rightarrow> R x x'))"

definition same_training :: "('p, 'o) state \<Rightarrow> ('p, 'o) state \<Rightarrow> bool" where
  "same_training s s' \<longleftrightarrow> same_vars s s' \<and> flag_only_prints s s'"

subsection \<open>The samples of the two loaders\<close>

text \<open>The samples the training dataset (line 123, \<^verbatim>\<open>shuffle=True\<close>) and the validation
  dataset (line 141, \<^verbatim>\<open>shuffle=False\<close>) yield in epoch \<open>k\<close>.\<close>

definition train_samples :: "('p, 'o, 'g, 'x) torch \<Rightarrow> args \<Rightarrow> nat \<Rightarrow> 'x list" where
  "train_samples t a =
     (\<lambda>k. dataset t (train_dirs a (all_data_dirs (glob t (count_level a)))) True k)"

definition val_samples :: "('p, 'o, 'g, 'x) torch \<Rightarrow> args \<Rightarrow> nat \<Rightarrow> 'x list" where
  "val_samples t a =
     (\<lambda>k. dataset t (val_dirs a (all_data_dirs (glob t (count_level a)))) False k)"

text \<open>What is left of a sequence of samples when the tail that fills no batch of \<open>b\<close>
  samples is cut off, and the framework whose training dataset yields these samples
  only.\<close>

definition full_batches_part :: "nat \<Rightarrow> 'x list \<Rightarrow> 'x list" where
  "full_batches_part b xs = take (length xs - length xs mod b) xs"

definition cut_training_tail ::
  "nat \<Rightarrow> ('p, 'o, 'g, 'x) torch \<Rightarrow> ('p, 'o, 'g, 'x) torch" where
  "cut_training_tail b t =
     t\<lparr>dataset := (\<lambda>dirs shuffle k.
          if shuffle then full_batches_part b (dataset t dirs shuffle k)
          else dataset t dirs shuffle k)\<rparr>"

section \<open>Slices and batches\<close>

lemma py_slice_prefix: "0 \<le> i \<Longrightarrow> py_slice xs None (Some i) = take (nat i) xs"
  by (simp add: py_slice_def slice_bound_def min_def Let_def)

lemma py_slice_range:
  "0 \<le> i \<Longrightarrow> 0 \<le> j \<Longrightarrow> py_slice xs (Some i) (Some (i + j)) = take (nat j) (drop (nat i) xs)"
  by (simp add: py_slice_def slice_bound_def min_def drop_take nat_add_distrib Let_def)

lemma chunks_Nil [simp]: "chunks b [] = []"
  by (simp add: chunks.simps)

lemma chunks_short: "0 < b \<Longrightarrow> xs \<noteq> [] \<Longrightarrow> length xs \<le> b \<Longrightarrow> chunks b xs = [xs]"
  by (subst chunks.simps) simp

lemma chunks_long: "0 < b \<Longrightarrow> b \<le> length xs \<Longrightarrow> chunks b xs = take b xs # chunks b (drop b xs)"
  by (subst chunks.simps) auto

lemma chunks_concat: "0 < b \<Longrightarrow> concat (chunks b xs) = xs"
proof (induction b xs rule: chunks.induct)
  case (1 b xs)
  then show ?case by (subst chunks.simps) auto
qed

lemma full_part_ge: "0 < b \<Longrightarrow> b \<le> (n::nat) \<Longrightarrow> b \<le> n - n mod b"
proof -
  assume b: "0 < b" and ge: "b \<le> n"
  have "n - n mod b = b * (n div b)"
    by (simp add: minus_mod_eq_mult_div)
  moreover have "1 \<le> n div b"
    using ge b by (simp add: div_greater_zero_iff Suc_leI)
  ultimately show ?thesis by simp
qed

text \<open>The batches of full size are the batches of the samples without the incomplete
  tail.\<close>

lemma full_chunks:
  "0 < b \<Longrightarrow> filter (\<lambda>c. length c = b) (chunks b xs) = chunks b (take (length xs - length xs mod b) xs)"
proof (induction b xs rule: chunks.induct)
  case (1 b xs)
  show ?case
  proof (cases "length xs < b")
    case True
    then show ?thesis using 1(2)
      by (cases "xs = []") (simp_all add: chunks_short)
  next
    case False
    then have ge: "b \<le> length xs" by simp
    then have ne: "xs \<noteq> []" using 1(2) by auto
    have m: "(length xs - b) mod b = length xs mod b"
      using ge by (simp add: le_mod_geq)
    have le: "b \<le> length xs - length xs mod b"
      using 1(2) ge by (rule full_part_ge)
    have ih: "filter (\<lambda>c. length c = b) (chunks b (drop b xs)) =
              chunks b (take (length xs - b - length xs mod b) (drop b xs))"
      using 1(1) [OF _ 1(2)] ne 1(2) m by simp
    have e1: "chunks b xs = take b xs # chunks b (drop b xs)"
      using 1(2) ge by (rule chunks_long)
    have "b \<le> length (take (length xs - length xs mod b) xs)"
      using le by simp
    from chunks_long [OF 1(2) this]
    have e2: "chunks b (take (length xs - length xs mod b) xs) =
          take b xs # chunks b (take (length xs - length xs mod b - b) (drop b xs))"
      using le by (simp add: drop_take min_def)
    have e3: "length xs - length xs mod b - b = length xs - b - length xs mod b"
      by simp
    show ?thesis
      unfolding e1 e2 e3 using ih ge by simp
  qed
qed

lemma length_full_chunks:
  "0 < b \<Longrightarrow> length xs mod b = 0 \<Longrightarrow> length (chunks b xs) = length xs div b"
proof (induction b xs rule: chunks.induct)
  case (1 b xs)
  show ?case
  proof (cases "xs = []")
    case True
    then show ?thesis by simp
  next
    case False
    have ge: "b \<le> length xs"
    proof (rule ccontr)
      assume "\<not> b \<le> length xs"
      then have "length xs mod b = length xs" by simp
      with 1(3) False show False by simp
    qed
    have "length (drop b xs) mod b = 0" using ge 1(3) by (simp add: le_mod_geq)
    with 1(1) [OF _ 1(2)] False 1(2)
    have ih: "length (chunks b (drop b xs)) = (length xs - b) div b"
      by simp
    have "Suc ((length xs - b) div b) = length xs div b"
      using ge 1(2) by (simp add: le_div_geq)
    then show ?thesis using ih by (simp add: chunks_long [OF 1(2) ge])
  qed
qed

lemma length_drop_last:
  assumes "0 < b"
  shows "length (filter (\<lambda>c. length c = b) (chunks b xs)) = length xs div b"
proof -
  let ?k = "length xs - length xs mod b"
  have k: "?k = b * (length xs div b)" by (simp add: minus_mod_eq_mult_div)
  have "length (take ?k xs) = ?k" by simp
  then have l: "length (take ?k xs) = b * (length xs div b)" using k by simp
  then have "length (take ?k xs) mod b = 0" by simp
  from length_full_chunks [OF assms this]
  show ?thesis using assms l by (simp add: full_chunks)
qed

lemma last_chunk:
  "0 < b \<Longrightarrow> length xs mod b \<noteq> 0 \<Longrightarrow>
   chunks b xs \<noteq> [] \<and> last (chunks b xs) = drop (length xs - length xs mod b) xs"
proof (induction b xs rule: chunks.induct)
  case (1 b xs)
  have ne: "xs \<noteq> []" using 1(3) by auto
  show ?case
  proof (cases "length xs < b")
    case True
    then show ?thesis using ne 1(2) by (simp add: chunks_short)
  next
    case False
    then have ge: "b \<le> length xs" by simp
    have m: "length (drop b xs) mod b = length xs mod b" using ge by (simp add: le_mod_geq)
    with 1(1) [OF _ 1(2)] ne 1(2,3)
    have ih: "chunks b (drop b xs) \<noteq> [] \<and>
       last (chunks b (drop b xs)) = drop (length (drop b xs) - length xs mod b) (drop b xs)"
      by simp
    have "(length xs - b) mod b \<le> length xs - b"
      by (rule mod_less_eq_dividend)
    moreover have "(length xs - b) mod b = length xs mod b"
      using ge by (simp add: le_mod_geq)
    ultimately have "length xs mod b \<le> length xs - b" by simp
    then have "length xs - b - length xs mod b + b = length xs - length xs mod b"
      using ge by simp
    then have "drop (length (drop b xs) - length xs mod b) (drop b xs) =
               drop (length xs - length xs mod b) xs"
      by simp
    then show ?thesis using ih
      by (simp only: chunks_long [OF 1(2) ge] last.simps if_False simp_thms list.simps)
  qed
qed

lemma sort_set_eq:
  "distinct xs \<Longrightarrow> distinct ys \<Longrightarrow> set xs = set ys \<Longrightarrow> sort xs = sort (ys :: 'a::linorder list)"
  by (rule sorted_distinct_set_unique) simp_all

section \<open>File names and the best model\<close>

lemma digit_value: "d < 10 \<Longrightarrow> of_char (digit d) - 48 = (d::nat)"
  by (simp add: digit_def of_char_of)

lemma decimal_value_snoc: "decimal_value (cs @ [c]) = 10 * decimal_value cs + (of_char c - 48)"
  by (simp add: decimal_value_def)

lemma decimal_value_decimal: "decimal_value (decimal n) = n"
proof (induction n rule: decimal.induct)
  case (1 n)
  show ?case
  proof (cases "n < 10")
    case True
    then show ?thesis by (subst decimal.simps) (simp add: decimal_value_def digit_value)
  next
    case False
    with 1 have "decimal_value (decimal (n div 10)) = n div 10" by simp
    then show ?thesis using False
      by (subst decimal.simps) (simp add: decimal_value_snoc digit_value)
  qed
qed

lemma decimal_value_zeros: "decimal_value (replicate k (CHR ''0'') @ cs) = decimal_value cs"
proof -
  have "foldl (\<lambda>v c. 10 * v + (of_char c - 48)) (0::nat) (replicate k (CHR ''0'')) = 0"
    by (induction k) simp_all
  then show ?thesis by (simp add: decimal_value_def)
qed

lemma zero_pad_inj: "zero_pad w n = zero_pad w m \<Longrightarrow> n = m"
proof -
  assume "zero_pad w n = zero_pad w m"
  then have "decimal_value (zero_pad w n) = decimal_value (zero_pad w m)" by simp
  then show ?thesis by (simp add: zero_pad_def decimal_value_zeros decimal_value_decimal)
qed

lemma epoch_file_inj [simp]: "epoch_file e = epoch_file e' \<longleftrightarrow> e = e'"
  by (auto simp add: epoch_file_def dest: zero_pad_inj)

lemma epoch_file_other [simp]:
  "epoch_file e \<noteq> ''best.pth''" "epoch_file e \<noteq> ''current_metrics.pdf''"
  "''best.pth'' \<noteq> epoch_file e" "''current_metrics.pdf'' \<noteq> epoch_file e"
  by (simp_all add: epoch_file_def)


lemma not_nan_Fin: "\<not> is_nan x \<Longrightarrow> x = Fin (the_fin x)"
  by (cases x) simp_all

lemma tensor_max_gt:
  assumes "xs \<noteq> []"
  shows "\<exists>m. tensor_max xs = Inr m \<and> (gt v m \<longleftrightarrow> list_all (gt v) xs)"
proof (cases "list_ex is_nan xs")
  case True
  then obtain x where x: "x \<in> set xs" "is_nan x" by (auto simp add: list_ex_iff)
  have "x = NaN" using x(2) by (cases x) simp_all
  then have "\<not> gt v x" by (cases v) simp_all
  then have "\<not> list_all (gt v) xs" using x(1)
    by (auto simp add: list_all_iff)
  then show ?thesis using True assms by (simp add: tensor_max_def)
next
  case False
  have fin: "x = Fin (the_fin x)" if "x \<in> set xs" for x
    using that False by (intro not_nan_Fin) (auto simp add: list_ex_iff)
  show ?thesis
  proof (cases v)
    case NaN
    then show ?thesis using False assms by (cases xs) (simp_all add: tensor_max_def)
  next
    case (Fin r)
    have "(Max (the_fin ` set xs) < r) \<longleftrightarrow> (\<forall>x \<in> the_fin ` set xs. x < r)"
      using assms by (intro Max_less_iff) simp_all
    also have "\<dots> \<longleftrightarrow> (\<forall>x \<in> set xs. gt (Fin r) x)"
    proof -
      have "gt (Fin r) x \<longleftrightarrow> the_fin x < r" if "x \<in> set xs" for x
        by (subst fin [OF that]) simp
      then show ?thesis by simp
    qed
    finally show ?thesis using False assms Fin
      by (simp add: tensor_max_def list_all_iff)
  qed
qed

lemma is_best_new_best:
  assumes "0 < epoch" and "epoch \<le> length vp"
  shows "is_best epoch vp = Inr (new_best epoch vp)"
proof (cases "epoch = 1")
  case True
  then show ?thesis by (simp add: is_best_def new_best_def)
next
  case False
  with assms have e: "1 < epoch" by simp
  have sl: "py_slice vp None (Some (int epoch - 1)) = take (epoch - 1) vp"
    using e by (simp add: py_slice_prefix nat_diff_distrib)
  have "take (epoch - 1) vp \<noteq> []" using e assms by auto
  from tensor_max_gt [OF this, of "vp ! (epoch - 1)"]
  obtain m where "tensor_max (take (epoch - 1) vp) = Inr m"
    "gt (vp ! (epoch - 1)) m \<longleftrightarrow> list_all (gt (vp ! (epoch - 1))) (take (epoch - 1) vp)"
    by blast
  then show ?thesis using e assms False
    by (simp add: is_best_def new_best_def sl tensor_get_def)
qed

section \<open>The blocks of an epoch\<close>

lemmas world_ops = emit_def print_lines_def write_file_def unlink_def raise_def symlink_to_def
lemmas views = mode_view_def fs_view_def update_view_def

lemma filter_map_Print [simp]:
  "filter is_mode_event (map Print ls) = []" "filter is_fs_event (map Print ls) = []"
  "filter is_update_event (map Print ls) = []"
  by (induction ls) simp_all

lemma frame_refl [simp]: "frame s s"
  by (simp add: frame_def)

lemma frame_trans: "frame s s1 \<Longrightarrow> frame s1 s2 \<Longrightarrow> frame s s2"
  by (simp add: frame_def)

lemma frozen_refl [simp]: "frozen s s"
  by (simp add: frozen_def)

lemma frozen_trans: "frozen s s1 \<Longrightarrow> frozen s1 s2 \<Longrightarrow> frozen s s2"
  by (simp add: frozen_def)

lemma train_batch_ok:
  assumes "batch_idx < length batch_losses"
  shows "\<exists>s' bl. train_batch t a epoch n (batch_idx, batch) (s, batch_losses) = Inr (s', bl) \<and>
           length bl = length batch_losses \<and> frame s s' \<and>
           mode_view (trace s') = mode_view (trace s) @ [Forward (mode s) (grad_enabled s)]"
  using assms
  by (simp add: train_batch_def world_ops views frame_def tensor_set_def Let_def split: prod.splits)

lemma train_loop_ok:
  assumes "i + length batches \<le> length batch_losses"
  shows "\<exists>s' bl. for_each (train_batch t a epoch n) (enumerate i batches) (s, batch_losses) = Inr (s', bl) \<and>
           length bl = length batch_losses \<and> frame s s' \<and>
           mode_view (trace s') =
             mode_view (trace s) @ replicate (length batches) (Forward (mode s) (grad_enabled s))"
  using assms
proof (induction batches arbitrary: i s batch_losses)
  case Nil
  then show ?case by simp
next
  case (Cons b bs)
  from Cons.prems have "i < length batch_losses" by simp
  from train_batch_ok [OF this, of t a epoch n b s]
  obtain s1 bl1 where 1: "train_batch t a epoch n (i, b) (s, batch_losses) = Inr (s1, bl1)"
    "length bl1 = length batch_losses" "frame s s1"
    "mode_view (trace s1) = mode_view (trace s) @ [Forward (mode s) (grad_enabled s)]"
    by blast
  from Cons.prems 1(2) have "Suc i + length bs \<le> length bl1" by simp
  from Cons.IH [OF this, of s1]
  obtain s2 bl2 where 2: "for_each (train_batch t a epoch n) (enumerate (Suc i) bs) (s1, bl1) = Inr (s2, bl2)"
    "length bl2 = length bl1" "frame s1 s2"
    "mode_view (trace s2) = mode_view (trace s1) @ replicate (length bs) (Forward (mode s1) (grad_enabled s1))"
    by blast
  have "mode s1 = mode s" "grad_enabled s1 = grad_enabled s"
    using 1(3) by (simp_all add: frame_def)
  then show ?case
    using 1 2 frame_trans [OF 1(3) 2(3)] by (simp add: replicate_app_Cons_same)
qed

lemma train_epoch_ok:
  assumes "sized n s" and "0 < epoch" and "epoch \<le> n"
  shows "\<exists>s'. train_epoch t a epoch batches s = Inr s' \<and> sized n s' \<and>
           files s' = files s \<and> mode s' = mode s \<and> grad_enabled s' = grad_enabled s \<and>
           val_psnr s' = val_psnr s \<and> val_loss_avg s' = val_loss_avg s \<and>
           fs_view (trace s') = fs_view (trace s) \<and>
           mode_view (trace s') =
             mode_view (trace s) @ replicate (length batches) (Forward (mode s) (grad_enabled s))"
proof -
  have "0 + length batches \<le> length (replicate (length batches) (Fin 0))" by simp
  from train_loop_ok [OF this, of t a epoch "length batches" s]
  obtain s1 bl where 1:
    "for_each (train_batch t a epoch (length batches)) (enumerate 0 batches)
       (s, replicate (length batches) (Fin 0)) = Inr (s1, bl)"
    "frame s s1"
    "mode_view (trace s1) =
       mode_view (trace s) @ replicate (length batches) (Forward (mode s) (grad_enabled s))"
    by blast
  have "epoch - 1 < length (train_loss_avg s1)"
    using assms 1(2) by (simp add: sized_def frame_def)
  then show ?thesis
    using 1 assms(1)
    by (simp add: train_epoch_def Let_def tensor_set_def world_ops views frame_def sized_def)
qed

lemma val_batch_ok:
  assumes "batch_idx < length val_losses" and "batch_idx < length batch_psnr"
  shows "\<exists>s' vl bp. val_batch t (batch_idx, batch) (s, val_losses, batch_psnr) = Inr (s', vl, bp) \<and>
           length vl = length val_losses \<and> length bp = length batch_psnr \<and>
           frame s s' \<and> frozen s s' \<and>
           mode_view (trace s') = mode_view (trace s) @ [Forward (mode s) (grad_enabled s)]"
  using assms
  by (simp add: val_batch_def world_ops views frame_def frozen_def tensor_set_def Let_def)

lemma val_loop_ok:
  assumes "i + length batches \<le> length val_losses" and "i + length batches \<le> length batch_psnr"
  shows "\<exists>s' vl bp. for_each (val_batch t) (enumerate i batches) (s, val_losses, batch_psnr) = Inr (s', vl, bp) \<and>
           length vl = length val_losses \<and> length bp = length batch_psnr \<and>
           frame s s' \<and> frozen s s' \<and>
           mode_view (trace s') =
             mode_view (trace s) @ replicate (length batches) (Forward (mode s) (grad_enabled s))"
  using assms
proof (induction batches arbitrary: i s val_losses batch_psnr)
  case Nil
  then show ?case by simp
next
  case (Cons b bs)
  from Cons.prems have "i < length val_losses" "i < length batch_psnr" by simp_all
  from val_batch_ok [OF this, of t b s]
  obtain s1 vl1 bp1 where 1: "val_batch t (i, b) (s, val_losses, batch_psnr) = Inr (s1, vl1, bp1)"
    "length vl1 = length val_losses" "length bp1 = length batch_psnr" "frame s s1" "frozen s s1"
    "mode_view (trace s1) = mode_view (trace s) @ [Forward (mode s) (grad_enabled s)]"
    by blast
  from Cons.prems 1(2,3) have "Suc i + length bs \<le> length vl1" "Suc i + length bs \<le> length bp1"
    by simp_all
  from Cons.IH [OF this, of s1]
  obtain s2 vl2 bp2 where 2:
    "for_each (val_batch t) (enumerate (Suc i) bs) (s1, vl1, bp1) = Inr (s2, vl2, bp2)"
    "length vl2 = length vl1" "length bp2 = length bp1" "frame s1 s2" "frozen s1 s2"
    "mode_view (trace s2) = mode_view (trace s1) @ replicate (length bs) (Forward (mode s1) (grad_enabled s1))"
    by blast
  have "mode s1 = mode s" "grad_enabled s1 = grad_enabled s"
    using 1(4) by (simp_all add: frame_def)
  then show ?case
    using 1 2 frame_trans [OF 1(4) 2(4)] frozen_trans [OF 1(5) 2(5)]
    by (simp add: replicate_app_Cons_same)
qed

lemma validate_ok:
  assumes "sized n s" and "0 < epoch" and "epoch \<le> n"
  shows "\<exists>s'. validate t epoch batches s = Inr s' \<and> sized n s' \<and> frozen s s' \<and>
           files s' = files s \<and> mode s' = Evaluation \<and> grad_enabled s' = grad_enabled s \<and>
           train_loss_avg s' = train_loss_avg s \<and>
           take (epoch - 1) (val_psnr s') = take (epoch - 1) (val_psnr s) \<and>
           (batches = [] \<longrightarrow> val_psnr s' ! (epoch - 1) = NaN) \<and>
           fs_view (trace s') = fs_view (trace s) \<and>
           mode_view (trace s') =
             mode_view (trace s) @ SetMode Evaluation #
               replicate (length batches) (Forward Evaluation False)"
proof -
  let ?s2 = "(emit (SetMode Evaluation) (s\<lparr>mode := Evaluation\<rparr>))\<lparr>grad_enabled := False\<rparr>"
  let ?z = "replicate (length batches) (Fin 0)"
  have "0 + length batches \<le> length ?z" by simp
  from val_loop_ok [OF this this, of t ?s2]
  obtain s3 vl bp where 1:
    "for_each (val_batch t) (enumerate 0 batches) (?s2, ?z, ?z) = Inr (s3, vl, bp)"
    "length vl = length batches" "length bp = length batches"
    "frame ?s2 s3" "frozen ?s2 s3"
    "mode_view (trace s3) =
       mode_view (trace ?s2) @ replicate (length batches) (Forward (mode ?s2) (grad_enabled ?s2))"
    by auto
  have r: "epoch - 1 < length (val_loss_avg s3)" "epoch - 1 < length (val_psnr s3)"
    using assms 1(4) by (simp_all add: sized_def frame_def world_ops)
  have e: "batches = [] \<Longrightarrow> tensor_mean bp = NaN"
    using 1(3) by (simp add: tensor_mean_def)
  show ?thesis
    using 1 r assms(1) e
    by (auto simp add: validate_def Let_def tensor_set_def world_ops views frame_def frozen_def sized_def)
qed

lemma save_checkpoint_eq:
  assumes "epoch - 1 < length (val_psnr s)"
  shows "save_checkpoint a epoch s =
           Inr (write_file (epoch_file epoch) (Checkpoint (checkpoint_of a epoch s)) s)"
  using assms by (simp add: save_checkpoint_def tensor_get_def checkpoint_of_def)

lemma update_best_ok:
  assumes "0 < epoch" and "epoch \<le> length (val_psnr s)"
  shows "\<exists>s'. update_best epoch s = Inr s' \<and> same_vars s s' \<and>
           fs_view (trace s') =
             fs_view (trace s) @
             (if new_best epoch (val_psnr s)
              then (if files s ''best.pth'' \<noteq> None then [Unlink ''best.pth''] else []) @
                   [SymlinkTo ''best.pth'' (epoch_file epoch)]
              else []) \<and>
           files s' =
             (if new_best epoch (val_psnr s)
              then (files s)(''best.pth'' \<mapsto> Symlink (epoch_file epoch))
              else files s)"
proof -
  have best: "is_best epoch (val_psnr s) = Inr (new_best epoch (val_psnr s))"
    using assms by (rule is_best_new_best)
  show ?thesis
  proof (cases "new_best epoch (val_psnr s)")
    case False
    then show ?thesis using best by (simp add: update_best_def same_vars_def)
  next
    case True
    then show ?thesis using best
      by (cases "files s ''best.pth'' = None")
        (auto simp add: update_best_def same_vars_def world_ops views Let_def)
  qed
qed

lemma epoch_body_ok:
  assumes "sized n s" and "0 < epoch" and "epoch \<le> n"
  shows "\<exists>s'. epoch_body t a train_loader val_loader epoch s = Inr s' \<and> sized n s' \<and>
           epoch_step a (length (train_loader epoch)) (length (val_loader epoch)) epoch s s'"
proof -
  from train_epoch_ok [OF assms, of t a "train_loader epoch"]
  obtain s1 where 1: "train_epoch t a epoch (train_loader epoch) s = Inr s1" "sized n s1"
    "files s1 = files s" "mode s1 = mode s" "grad_enabled s1 = grad_enabled s"
    "val_psnr s1 = val_psnr s"
    "fs_view (trace s1) = fs_view (trace s)"
    "mode_view (trace s1) =
       mode_view (trace s) @ replicate (length (train_loader epoch)) (Forward (mode s) (grad_enabled s))"
    by blast
  from validate_ok [OF 1(2) assms(2,3), of t "val_loader epoch"]
  obtain s2 where 2: "validate t epoch (val_loader epoch) s1 = Inr s2" "sized n s2"
    "files s2 = files s1" "mode s2 = Evaluation" "grad_enabled s2 = grad_enabled s1"
    "take (epoch - 1) (val_psnr s2) = take (epoch - 1) (val_psnr s1)"
    "val_loader epoch = [] \<longrightarrow> val_psnr s2 ! (epoch - 1) = NaN"
    "fs_view (trace s2) = fs_view (trace s1)"
    "mode_view (trace s2) =
       mode_view (trace s1) @ SetMode Evaluation #
         replicate (length (val_loader epoch)) (Forward Evaluation False)"
    by blast
  have len: "epoch - 1 < length (val_psnr s2)" "epoch \<le> length (val_psnr s2)"
    using 2(2) assms by (simp_all add: sized_def)
  define s3 where "s3 = write_file (epoch_file epoch) (Checkpoint (checkpoint_of a epoch s2)) s2"
  have 3: "save_checkpoint a epoch s2 = Inr s3"
    unfolding s3_def using len(1) by (rule save_checkpoint_eq)
  have v3: "same_vars s2 s3" "files s3 = (files s2)(epoch_file epoch \<mapsto> Checkpoint (checkpoint_of a epoch s2))"
    "fs_view (trace s3) = fs_view (trace s2) @ [Write (epoch_file epoch) (Checkpoint (checkpoint_of a epoch s2))]"
    by (simp_all add: s3_def same_vars_def world_ops views)
  have "epoch \<le> length (val_psnr s3)" using len(2) v3(1) by (simp add: same_vars_def)
  from update_best_ok [OF assms(2) this]
  obtain s4 where 4: "update_best epoch s3 = Inr s4" "same_vars s3 s4"
    "fs_view (trace s4) =
       fs_view (trace s3) @
       (if new_best epoch (val_psnr s3)
        then (if files s3 ''best.pth'' \<noteq> None then [Unlink ''best.pth''] else []) @
             [SymlinkTo ''best.pth'' (epoch_file epoch)]
        else [])"
    "files s4 =
       (if new_best epoch (val_psnr s3)
        then (files s3)(''best.pth'' \<mapsto> Symlink (epoch_file epoch))
        else files s3)"
    by blast
  define s5 where "s5 = plot_metrics epoch s4"
  have v24: "params s4 = params s2" "opt s4 = opt s2" "mode s4 = mode s2"
    "grad_enabled s4 = grad_enabled s2" "val_psnr s4 = val_psnr s2"
    "val_loss_avg s4 = val_loss_avg s2" "train_loss_avg s4 = train_loss_avg s2"
    "mode_view (trace s4) = mode_view (trace s2)"
    using v3(1) 4(2) by (simp_all add: same_vars_def)
  have v5: "params s5 = params s2" "opt s5 = opt s2" "mode s5 = mode s2"
    "grad_enabled s5 = grad_enabled s2" "val_psnr s5 = val_psnr s2"
    "val_loss_avg s5 = val_loss_avg s2" "train_loss_avg s5 = train_loss_avg s2"
    "mode_view (trace s5) = mode_view (trace s2)"
    "files s5 = (files s4)(''current_metrics.pdf'' \<mapsto> figure_of epoch s2)"
    "fs_view (trace s5) = fs_view (trace s4) @ [Write ''current_metrics.pdf'' (figure_of epoch s2)]"
    using v24
    by (simp_all add: s5_def plot_metrics_def world_ops views figure_of_def py_slice_prefix)
  have ck: "checkpoint_of a epoch s5 = checkpoint_of a epoch s2"
    "figure_of epoch s5 = figure_of epoch s2"
    using v5 by (simp_all add: checkpoint_of_def figure_of_def)
  have body: "epoch_body t a train_loader val_loader epoch s = Inr s5"
    using 1(1) 2(1) 3 4(1) by (simp add: epoch_body_def s5_def)
  have sz: "sized n s5"
    using 2(2) v5 by (simp add: sized_def)
  have b3: "files s3 ''best.pth'' = files s ''best.pth''"
    using v3(2) 2(3) 1(3) by simp
  have vp3: "val_psnr s3 = val_psnr s2" using v3(1) by (simp add: same_vars_def)
  have step: "epoch_step a (length (train_loader epoch)) (length (val_loader epoch)) epoch s s5"
    unfolding epoch_step_def ck
    using 1 2 v3(2,3) 4(3,4) v5 b3 vp3
    by (simp add: fun_upd_twist)
  show ?thesis using body sz step by blast
qed

section \<open>The loop over the epochs\<close>

lemma for_each_snoc:
  "for_each body (xs @ [x]) acc =
     (case for_each body xs acc of Inl e \<Rightarrow> Inl e | Inr acc' \<Rightarrow> body x acc')"
  by (induction xs arbitrary: acc) (simp_all split: sum.splits)

lemma epochs_induct:
  assumes "sized n s0" and "P 0 s0"
    and step: "\<And>k s s'. k < n \<Longrightarrow>
       for_each (epoch_body t a train_loader val_loader) [1..<Suc k] s0 = Inr s \<Longrightarrow>
       sized n s \<Longrightarrow> P k s \<Longrightarrow>
       for_each (epoch_body t a train_loader val_loader) [1..<Suc (Suc k)] s0 = Inr s' \<Longrightarrow>
       sized n s' \<Longrightarrow>
       epoch_step a (length (train_loader (Suc k))) (length (val_loader (Suc k))) (Suc k) s s' \<Longrightarrow>
       P (Suc k) s'"
  shows "k \<le> n \<Longrightarrow>
    \<exists>s. for_each (epoch_body t a train_loader val_loader) [1..<Suc k] s0 = Inr s \<and>
        sized n s \<and> P k s"
proof (induction k)
  case 0
  then show ?case using assms(1,2) by simp
next
  case (Suc k)
  then obtain s where s: "for_each (epoch_body t a train_loader val_loader) [1..<Suc k] s0 = Inr s"
    "sized n s" "P k s"
    by auto
  from epoch_body_ok [OF s(2), of "Suc k" t a train_loader val_loader] Suc.prems
  obtain s' where s': "epoch_body t a train_loader val_loader (Suc k) s = Inr s'" "sized n s'"
    "epoch_step a (length (train_loader (Suc k))) (length (val_loader (Suc k))) (Suc k) s s'"
    by auto
  have run: "for_each (epoch_body t a train_loader val_loader) [1..<Suc (Suc k)] s0 = Inr s'"
    using s(1) s'(1) for_each_snoc [of "epoch_body t a train_loader val_loader" "[1..<Suc k]" "Suc k" s0]
    by simp
  have "k < n" using Suc.prems by simp
  from step [OF this s run s'(2,3)] show ?case using run s'(2) by blast
qed

lemma epochs_modes:
  assumes "sized n s0" and "k \<le> n"
  shows "\<exists>s. for_each (epoch_body t a train_loader val_loader) [1..<Suc k] s0 = Inr s \<and>
        sized n s \<and> 
        (mode s = (if k = 0 then mode s0 else Evaluation) \<and> grad_enabled s = grad_enabled s0 \<and>
         mode_view (trace s) =
           mode_view (trace s0) @ mode_trace (mode s0) (grad_enabled s0) train_loader val_loader [1..<Suc k])"
  using assms(1) _ _ assms(2)
proof (rule epochs_induct)
  show "mode s0 = (if (0::nat) = 0 then mode s0 else Evaluation) \<and> grad_enabled s0 = grad_enabled s0 \<and>
         mode_view (trace s0) =
           mode_view (trace s0) @ mode_trace (mode s0) (grad_enabled s0) train_loader val_loader [1..<Suc 0]"
    by (simp add: mode_trace_def)
next
  fix k s s'
  assume p: "mode s = (if k = 0 then mode s0 else Evaluation) \<and> grad_enabled s = grad_enabled s0 \<and>
         mode_view (trace s) =
           mode_view (trace s0) @ mode_trace (mode s0) (grad_enabled s0) train_loader val_loader [1..<Suc k]"
    and st: "epoch_step a (length (train_loader (Suc k))) (length (val_loader (Suc k))) (Suc k) s s'"
  have m: "(if Suc k = 1 then mode s0 else Evaluation) = mode s"
    using p by simp
  show "mode s' = (if Suc k = 0 then mode s0 else Evaluation) \<and> grad_enabled s' = grad_enabled s0 \<and>
         mode_view (trace s') =
           mode_view (trace s0) @ mode_trace (mode s0) (grad_enabled s0) train_loader val_loader [1..<Suc (Suc k)]"
    using p st unfolding epoch_step_def mode_trace_def
    by (simp add: m del: One_nat_def)
qed

section \<open>From the script to the loop\<close>

lemma script_training:
  assumes "parse_args registry_keys json_loads c = Inr a"
    and "0 < tr_batch_size a" and "0 < val_batch_size a" and "0 \<le> num_epochs a"
  shows "script t registry_keys json_loads run_id run_dir c =
           training t a (train_batches t a) (val_batches t a) (start_state t a run_id run_dir)"
  using assms
  by (simp add: script_def data_loader_def zeros_def Let_def world_ops start_state_def
      train_batches_def val_batches_def)

lemma start_state_sized: "sized (nat (num_epochs a)) (start_state t a run_id run_dir)"
  by (simp add: start_state_def sized_def Let_def)

lemma start_state_views:
  "mode_view (trace (start_state t a run_id run_dir)) = []"
  "update_view (trace (start_state t a run_id run_dir)) = []"
  "link_targets (trace (start_state t a run_id run_dir)) = []"
  "saved (trace (start_state t a run_id run_dir)) = []"
  "figures (trace (start_state t a run_id run_dir)) = []"
  "mode (start_state t a run_id run_dir) = Training"
  "grad_enabled (start_state t a run_id run_dir)"
  by (simp_all add: start_state_def views link_targets_def saved_def figures_def Let_def
      List.map_filter_simps)

lemma training_modes:
  assumes "sized (nat (num_epochs a)) s"
  shows "\<exists>s'. training t a train_loader val_loader s = Inr s' \<and>
           mode s' = (if num_epochs a \<le> 0 then Training else Evaluation) \<and>
           mode_view (trace s') =
             mode_view (trace s) @
             SetMode Training #
             mode_trace Training (grad_enabled s) train_loader val_loader (epochs a)"
proof -
  let ?s0 = "emit (SetMode Training) (s\<lparr>mode := Training\<rparr>)"
  have "sized (nat (num_epochs a)) ?s0"
    using assms by (simp add: sized_def world_ops)
  from epochs_modes [OF this order_refl, of t a train_loader val_loader]
  show ?thesis
    by (auto simp add: training_def epochs_def world_ops views)
qed

section \<open>What the epochs leave in the run directory\<close>

lemma new_best_cong:
  assumes "take e vp' = take e vp"
  shows "new_best e vp' = new_best e vp"
proof (cases "e = 0")
  case True
  then show ?thesis by (simp add: new_best_def)
next
  case False
  then have "vp' ! (e - 1) = take e vp' ! (e - 1)" "vp ! (e - 1) = take e vp ! (e - 1)"
    by simp_all
  moreover have "take (e - 1) vp' = take (e - 1) (take e vp')" "take (e - 1) vp = take (e - 1) (take e vp)"
    by (simp_all add: min_def)
  ultimately show ?thesis using assms unfolding new_best_def by metis
qed

lemma new_best_earlier:
  assumes "take k vp' = take k vp"
  shows "filter (\<lambda>e. new_best e vp') [1..<Suc k] = filter (\<lambda>e. new_best e vp) [1..<Suc k]"
proof (rule filter_cong [OF refl])
  fix e assume "e \<in> set [1..<Suc k]"
  then have "e \<le> k" by auto
  then have "take e vp' = take e vp"
    using assms by (metis min.absorb1 take_take)
  then show "new_best e vp' = new_best e vp" by (rule new_best_cong)
qed

lemma link_targets_fs: "link_targets (fs_view tr) = link_targets tr"
proof (induction tr)
  case Nil
  then show ?case by (simp add: link_targets_def fs_view_def)
next
  case (Cons ev tr)
  then show ?case
    by (cases ev) (simp_all add: link_targets_def fs_view_def List.map_filter_simps)
qed

lemma saved_fs: "saved (fs_view tr) = saved tr"
proof (induction tr)
  case Nil
  then show ?case by (simp add: saved_def fs_view_def)
next
  case (Cons ev tr)
  then show ?case
    by (cases ev) (simp_all add: saved_def fs_view_def List.map_filter_simps split: option.splits)
qed

lemma figures_fs: "figures (fs_view tr) = figures tr"
proof (induction tr)
  case Nil
  then show ?case by (simp add: figures_def fs_view_def)
next
  case (Cons ev tr)
  then show ?case
    by (cases ev) (simp_all add: figures_def fs_view_def List.map_filter_simps split: option.splits)
qed

lemma map_filter_append: "List.map_filter f (xs @ ys) = List.map_filter f xs @ List.map_filter f ys"
  by (simp add: List.map_filter_def)

lemma epoch_step_links:
  assumes "epoch_step a ntr nval e s s'"
  shows "link_targets (trace s') =
           link_targets (trace s) @ (if new_best e (val_psnr s') then [epoch_file e] else [])"
    and "files s' ''best.pth'' =
           (if new_best e (val_psnr s') then Some (Symlink (epoch_file e)) else files s ''best.pth'')"
    and "saved (trace s') = saved (trace s) @ [epoch_file e]"
    and "figures (trace s') = figures (trace s) @ [''current_metrics.pdf'']"
    and "files s' ''current_metrics.pdf'' = Some (figure_of e s')"
    and "files s' (epoch_file e) = Some (Checkpoint (checkpoint_of a e s'))"
    and "\<And>name. name \<noteq> epoch_file e \<Longrightarrow> name \<noteq> ''best.pth'' \<Longrightarrow>
           name \<noteq> ''current_metrics.pdf'' \<Longrightarrow> files s' name = files s name"
proof -
  have fs: "fs_view (trace s') =
       fs_view (trace s) @
       Write (epoch_file e) (Checkpoint (checkpoint_of a e s')) #
       (if new_best e (val_psnr s')
        then (if files s ''best.pth'' \<noteq> None then [Unlink ''best.pth''] else []) @
             [SymlinkTo ''best.pth'' (epoch_file e)]
        else []) @
       [Write ''current_metrics.pdf'' (figure_of e s')]"
    using assms by (simp add: epoch_step_def)
  have "link_targets (fs_view (trace s')) =
       link_targets (fs_view (trace s)) @ (if new_best e (val_psnr s') then [epoch_file e] else [])"
    unfolding fs by (simp add: link_targets_def map_filter_append List.map_filter_simps)
  then show "link_targets (trace s') =
           link_targets (trace s) @ (if new_best e (val_psnr s') then [epoch_file e] else [])"
    by (simp add: link_targets_fs)
  have "saved (fs_view (trace s')) = saved (fs_view (trace s)) @ [epoch_file e]"
    unfolding fs by (simp add: saved_def map_filter_append List.map_filter_simps figure_of_def)
  then show "saved (trace s') = saved (trace s) @ [epoch_file e]"
    by (simp add: saved_fs)
  have "figures (fs_view (trace s')) = figures (fs_view (trace s)) @ [''current_metrics.pdf'']"
    unfolding fs by (simp add: figures_def map_filter_append List.map_filter_simps figure_of_def)
  then show "figures (trace s') = figures (trace s) @ [''current_metrics.pdf'']"
    by (simp add: figures_fs)
  show "files s' ''best.pth'' =
           (if new_best e (val_psnr s') then Some (Symlink (epoch_file e)) else files s ''best.pth'')"
    "files s' ''current_metrics.pdf'' = Some (figure_of e s')"
    "files s' (epoch_file e) = Some (Checkpoint (checkpoint_of a e s'))"
    "\<And>name. name \<noteq> epoch_file e \<Longrightarrow> name \<noteq> ''best.pth'' \<Longrightarrow>
           name \<noteq> ''current_metrics.pdf'' \<Longrightarrow> files s' name = files s name"
    using assms by (simp_all add: epoch_step_def)
qed

lemma upt_Suc_snoc: "[1..<Suc (Suc k)] = [1..<Suc k] @ [Suc k]"
  by simp

lemma epochs_links:
  assumes "sized n s0" and "k \<le> n"
  shows "\<exists>s. for_each (epoch_body t a train_loader val_loader) [1..<Suc k] s0 = Inr s \<and>
        sized n s \<and>
        (link_targets (trace s) =
           link_targets (trace s0) @
           map epoch_file (filter (\<lambda>e. new_best e (val_psnr s)) [1..<Suc k]) \<and>
         files s ''best.pth'' =
           (if k = 0 then files s0 ''best.pth''
            else Some (Symlink (epoch_file (last (filter (\<lambda>e. new_best e (val_psnr s)) [1..<Suc k]))))))"
  using assms(1) _ _ assms(2)
proof (rule epochs_induct)
  show "link_targets (trace s0) =
           link_targets (trace s0) @
           map epoch_file (filter (\<lambda>e. new_best e (val_psnr s0)) [1..<Suc 0]) \<and>
         files s0 ''best.pth'' =
           (if (0::nat) = 0 then files s0 ''best.pth''
            else Some (Symlink (epoch_file (last (filter (\<lambda>e. new_best e (val_psnr s0)) [1..<Suc 0])))))"
    by simp
next
  fix k s s'
  assume p: "link_targets (trace s) =
           link_targets (trace s0) @
           map epoch_file (filter (\<lambda>e. new_best e (val_psnr s)) [1..<Suc k]) \<and>
         files s ''best.pth'' =
           (if k = 0 then files s0 ''best.pth''
            else Some (Symlink (epoch_file (last (filter (\<lambda>e. new_best e (val_psnr s)) [1..<Suc k])))))"
    and st: "epoch_step a (length (train_loader (Suc k))) (length (val_loader (Suc k))) (Suc k) s s'"
  have "take k (val_psnr s') = take k (val_psnr s)"
    using st by (simp add: epoch_step_def)
  from new_best_earlier [OF this]
  have old: "filter (\<lambda>e. new_best e (val_psnr s')) [1..<Suc k] =
             filter (\<lambda>e. new_best e (val_psnr s)) [1..<Suc k]" .
  have first: "k = 0 \<Longrightarrow> new_best (Suc k) (val_psnr s')"
    by (simp add: new_best_def)
  note l = epoch_step_links(1,2) [OF st]
  show "link_targets (trace s') =
           link_targets (trace s0) @
           map epoch_file (filter (\<lambda>e. new_best e (val_psnr s')) [1..<Suc (Suc k)]) \<and>
         files s' ''best.pth'' =
           (if Suc k = 0 then files s0 ''best.pth''
            else Some (Symlink (epoch_file (last (filter (\<lambda>e. new_best e (val_psnr s')) [1..<Suc (Suc k)])))))"
    unfolding upt_Suc_snoc filter_append old l
    using p first by (cases "new_best (Suc k) (val_psnr s')") auto
qed

lemma epochs_saved:
  assumes "sized n s0" and "k \<le> n"
  shows "\<exists>s. for_each (epoch_body t a train_loader val_loader) [1..<Suc k] s0 = Inr s \<and>
        sized n s \<and>
        (saved (trace s) = saved (trace s0) @ map epoch_file [1..<Suc k] \<and>
         (\<forall>e. 1 \<le> e \<and> e \<le> k \<longrightarrow>
            (\<exists>se. for_each (epoch_body t a train_loader val_loader) [1..<Suc e] s0 = Inr se \<and>
                  files s (epoch_file e) = Some (Checkpoint (checkpoint_of a e se)))) \<and>
         (\<forall>name c. files s name = Some (Checkpoint c) \<longrightarrow>
            (\<exists>c0. files s0 name = Some (Checkpoint c0)) \<or> name \<in> epoch_file ` {1..k}))"
  using assms(1) _ _ assms(2)
proof (rule epochs_induct)
  show "saved (trace s0) = saved (trace s0) @ map epoch_file [1..<Suc 0] \<and>
         (\<forall>e. 1 \<le> e \<and> e \<le> 0 \<longrightarrow>
            (\<exists>se. for_each (epoch_body t a train_loader val_loader) [1..<Suc e] s0 = Inr se \<and>
                  files s0 (epoch_file e) = Some (Checkpoint (checkpoint_of a e se)))) \<and>
         (\<forall>name c. files s0 name = Some (Checkpoint c) \<longrightarrow>
            (\<exists>c0. files s0 name = Some (Checkpoint c0)) \<or> name \<in> epoch_file ` {1..0})"
    by simp
next
  fix k s s'
  assume p: "saved (trace s) = saved (trace s0) @ map epoch_file [1..<Suc k] \<and>
         (\<forall>e. 1 \<le> e \<and> e \<le> k \<longrightarrow>
            (\<exists>se. for_each (epoch_body t a train_loader val_loader) [1..<Suc e] s0 = Inr se \<and>
                  files s (epoch_file e) = Some (Checkpoint (checkpoint_of a e se)))) \<and>
         (\<forall>name c. files s name = Some (Checkpoint c) \<longrightarrow>
            (\<exists>c0. files s0 name = Some (Checkpoint c0)) \<or> name \<in> epoch_file ` {1..k})"
    and run: "for_each (epoch_body t a train_loader val_loader) [1..<Suc (Suc k)] s0 = Inr s'"
    and st: "epoch_step a (length (train_loader (Suc k))) (length (val_loader (Suc k))) (Suc k) s s'"
  note l = epoch_step_links [OF st]
  have a: "saved (trace s') = saved (trace s0) @ map epoch_file [1..<Suc (Suc k)]"
    using l(3) p by simp
  have b: "\<exists>se. for_each (epoch_body t a train_loader val_loader) [1..<Suc e] s0 = Inr se \<and>
                  files s' (epoch_file e) = Some (Checkpoint (checkpoint_of a e se))"
    if "1 \<le> e \<and> e \<le> Suc k" for e
  proof (cases "e = Suc k")
    case True
    then show ?thesis using run l(6) by blast
  next
    case False
    then have "e \<le> k" "epoch_file e \<noteq> epoch_file (Suc k)" using that by simp_all
    then have "files s' (epoch_file e) = files s (epoch_file e)"
      by (intro l(7)) simp_all
    then show ?thesis using p that \<open>e \<le> k\<close> by simp
  qed
  have c: "(\<exists>c0. files s0 name = Some (Checkpoint c0)) \<or> name \<in> epoch_file ` {1..Suc k}"
    if "files s' name = Some (Checkpoint c)" for name c
  proof (cases "name = epoch_file (Suc k)")
    case True
    then show ?thesis by simp
  next
    case False
    have pdf: "name \<noteq> ''current_metrics.pdf''"
      using that l(5) by (auto simp add: figure_of_def)
    have "files s' name = files s name"
    proof (cases "name = ''best.pth''")
      case True
      then show ?thesis using that l(2) by (auto split: if_splits)
    next
      case other: False
      show ?thesis using False other pdf by (rule l(7))
    qed
    then have "files s name = Some (Checkpoint c)"
      using that by simp
    with p have "(\<exists>c0. files s0 name = Some (Checkpoint c0)) \<or> name \<in> epoch_file ` {1..k}"
      by blast
    then show ?thesis by auto
  qed
  show "saved (trace s') = saved (trace s0) @ map epoch_file [1..<Suc (Suc k)] \<and>
         (\<forall>e. 1 \<le> e \<and> e \<le> Suc k \<longrightarrow>
            (\<exists>se. for_each (epoch_body t a train_loader val_loader) [1..<Suc e] s0 = Inr se \<and>
                  files s' (epoch_file e) = Some (Checkpoint (checkpoint_of a e se)))) \<and>
         (\<forall>name c. files s' name = Some (Checkpoint c) \<longrightarrow>
            (\<exists>c0. files s0 name = Some (Checkpoint c0)) \<or> name \<in> epoch_file ` {1..Suc k})"
    using a b c by blast
qed

lemma epochs_figures:
  assumes "sized n s0" and "k \<le> n"
  shows "\<exists>s. for_each (epoch_body t a train_loader val_loader) [1..<Suc k] s0 = Inr s \<and>
        sized n s \<and>
        (figures (trace s) = figures (trace s0) @ replicate k ''current_metrics.pdf'' \<and>
         (\<forall>e. 1 \<le> e \<and> e \<le> k \<and> val_loader e = [] \<longrightarrow> val_psnr s ! (e - 1) = NaN) \<and>
         (0 < k \<longrightarrow> files s ''current_metrics.pdf'' = Some (figure_of k s)) \<and>
         (\<forall>name. name \<noteq> ''best.pth'' \<and> name \<noteq> ''current_metrics.pdf'' \<and>
                 name \<notin> range epoch_file \<longrightarrow> files s name = files s0 name))"
  using assms(1) _ _ assms(2)
proof (rule epochs_induct)
  show "figures (trace s0) = figures (trace s0) @ replicate 0 ''current_metrics.pdf'' \<and>
         (\<forall>e. 1 \<le> e \<and> e \<le> 0 \<and> val_loader e = [] \<longrightarrow> val_psnr s0 ! (e - 1) = NaN) \<and>
         ((0::nat) < 0 \<longrightarrow> files s0 ''current_metrics.pdf'' = Some (figure_of 0 s0)) \<and>
         (\<forall>name. name \<noteq> ''best.pth'' \<and> name \<noteq> ''current_metrics.pdf'' \<and>
                 name \<notin> range epoch_file \<longrightarrow> files s0 name = files s0 name)"
    by simp
next
  fix k s s'
  assume p: "figures (trace s) = figures (trace s0) @ replicate k ''current_metrics.pdf'' \<and>
         (\<forall>e. 1 \<le> e \<and> e \<le> k \<and> val_loader e = [] \<longrightarrow> val_psnr s ! (e - 1) = NaN) \<and>
         (0 < k \<longrightarrow> files s ''current_metrics.pdf'' = Some (figure_of k s)) \<and>
         (\<forall>name. name \<noteq> ''best.pth'' \<and> name \<noteq> ''current_metrics.pdf'' \<and>
                 name \<notin> range epoch_file \<longrightarrow> files s name = files s0 name)"
    and st: "epoch_step a (length (train_loader (Suc k))) (length (val_loader (Suc k))) (Suc k) s s'"
  note l = epoch_step_links [OF st]
  have f: "figures (trace s') = figures (trace s0) @ replicate (Suc k) ''current_metrics.pdf''"
    using l(4) p by (simp add: replicate_append_same)
  have tk: "take k (val_psnr s') = take k (val_psnr s)"
    using st by (simp add: epoch_step_def)
  have old: "val_psnr s' ! (e - 1) = val_psnr s ! (e - 1)" if "1 \<le> e" "e \<le> k" for e
  proof -
    from that have "e - 1 < k" by simp
    then have "take k (val_psnr s') ! (e - 1) = val_psnr s' ! (e - 1)"
      "take k (val_psnr s) ! (e - 1) = val_psnr s ! (e - 1)"
      by simp_all
    then show ?thesis using tk by simp
  qed
  have new: "val_loader (Suc k) = [] \<Longrightarrow> val_psnr s' ! k = NaN"
    using st by (simp add: epoch_step_def)
  have n: "val_psnr s' ! (e - 1) = NaN" if "1 \<le> e" "e \<le> Suc k" "val_loader e = []" for e
  proof (cases "e = Suc k")
    case True
    then show ?thesis using new that by simp
  next
    case False
    then have "e \<le> k" using that by simp
    then show ?thesis using old [OF that(1)] p that by simp
  qed
  have o: "files s' name = files s0 name"
    if "name \<noteq> ''best.pth''" "name \<noteq> ''current_metrics.pdf''" "name \<notin> range epoch_file" for name
  proof -
    from that have "name \<noteq> epoch_file (Suc k)" by blast
    from l(7) [OF this that(1,2)] p that show ?thesis by simp
  qed
  show "figures (trace s') = figures (trace s0) @ replicate (Suc k) ''current_metrics.pdf'' \<and>
         (\<forall>e. 1 \<le> e \<and> e \<le> Suc k \<and> val_loader e = [] \<longrightarrow> val_psnr s' ! (e - 1) = NaN) \<and>
         (0 < Suc k \<longrightarrow> files s' ''current_metrics.pdf'' = Some (figure_of (Suc k) s')) \<and>
         (\<forall>name. name \<noteq> ''best.pth'' \<and> name \<noteq> ''current_metrics.pdf'' \<and>
                 name \<notin> range epoch_file \<longrightarrow> files s' name = files s0 name)"
    using f n l(5) o by simp
qed

lemma training_epochs:
  "training t a train_loader val_loader s =
     for_each (epoch_body t a train_loader val_loader) [1..<Suc (nat (num_epochs a))]
       (emit (SetMode Training) (s\<lparr>mode := Training\<rparr>))"
  by (simp add: training_def epochs_def)

lemma loop_start_sized:
  "sized n s \<Longrightarrow> sized n (emit (SetMode Training) (s\<lparr>mode := Training\<rparr>))"
  by (simp add: sized_def world_ops)

lemma loop_start_views:
  "link_targets (trace (emit (SetMode Training) (s\<lparr>mode := Training\<rparr>))) = link_targets (trace s)"
  "saved (trace (emit (SetMode Training) (s\<lparr>mode := Training\<rparr>))) = saved (trace s)"
  "figures (trace (emit (SetMode Training) (s\<lparr>mode := Training\<rparr>))) = figures (trace s)"
  "files (emit (SetMode Training) (s\<lparr>mode := Training\<rparr>)) = files s"
  by (simp_all add: world_ops link_targets_def saved_def figures_def map_filter_append
      List.map_filter_simps)

lemma not_reserved [simp]:
  "''args.json'' \<notin> range epoch_file" "''train_dirs.json'' \<notin> range epoch_file"
  "''val_dirs.json'' \<notin> range epoch_file"
  "epoch_file e \<noteq> ''args.json''"
  by (auto simp add: epoch_file_def)

lemma epoch_file_inj_on: "inj_on epoch_file A"
  by (rule inj_onI) simp

lemma filter_mode_view:
  "(\<And>ev. P ev \<Longrightarrow> is_mode_event ev) \<Longrightarrow> filter P (mode_view tr) = filter P tr"
  unfolding mode_view_def filter_filter
  by (rule filter_cong) auto

lemma mode_trace_switches:
  "filter (\<lambda>ev. ev = SetMode Training) (mode_trace m g train_loader val_loader es) =
     []"
  "length (filter (\<lambda>ev. ev = SetMode Evaluation) (mode_trace m g train_loader val_loader es)) =
     length es"
  by (induction es) (simp_all add: mode_trace_def filter_replicate)

lemma train_batch_updates:
  assumes "train_batch t a epoch n (i, b) (s, bl) = Inr (s', bl')"
  shows "update_view (trace s') = update_view (trace s) @ [ZeroGrad, Backward, Step (params s')]"
  using assms
  by (auto simp add: train_batch_def world_ops views Let_def split: prod.splits sum.splits if_splits)

lemma train_loop_updates:
  assumes "for_each (train_batch t a epoch n) (enumerate i batches) (s, bl) = Inr (s', bl')"
    and "batches \<noteq> []"
  shows "update_view (trace s') \<noteq> [] \<and> last (update_view (trace s')) = Step (params s')"
  using assms
proof (induction batches arbitrary: i s bl)
  case Nil
  then show ?case by simp
next
  case (Cons b bs)
  from Cons.prems(1) obtain s1 bl1 where
    1: "train_batch t a epoch n (i, b) (s, bl) = Inr (s1, bl1)"
    and 2: "for_each (train_batch t a epoch n) (enumerate (Suc i) bs) (s1, bl1) = Inr (s', bl')"
    by (auto split: sum.splits)
  show ?case
  proof (cases "bs = []")
    case True
    with 2 have "s' = s1" by simp
    with train_batch_updates [OF 1] show ?thesis by simp
  next
    case False
    from Cons.IH [OF 2 False] show ?thesis .
  qed
qed

lemma train_epoch_updates:
  assumes "train_epoch t a epoch batches s = Inr s'" and "batches \<noteq> []"
  shows "update_view (trace s') \<noteq> [] \<and> last (update_view (trace s')) = Step (params s')"
proof -
  from assms(1) obtain s1 bl where
    1: "for_each (train_batch t a epoch (length batches)) (enumerate 0 batches)
          (s, replicate (length batches) (Fin 0)) = Inr (s1, bl)"
    and 2: "params s' = params s1" "update_view (trace s') = update_view (trace s1)"
    by (auto simp add: train_epoch_def Let_def world_ops views split: sum.splits)
  from train_loop_updates [OF 1 assms(2)] 2 show ?thesis by simp
qed

lemma val_dirs_short:
  assumes "0 < num_validation_samples a"
    and "int (length dirs) < num_training_samples a + num_validation_samples a"
  shows "int (length (val_dirs a dirs)) < num_validation_samples a"
    and "0 \<le> num_training_samples a \<Longrightarrow> val_dirs a dirs = drop (nat (num_training_samples a)) dirs"
    and "int (length dirs) \<le> num_training_samples a \<Longrightarrow> val_dirs a dirs = []"
  using assms
  by (auto simp add: val_dirs_def py_slice_def slice_bound_def Let_def min_def)

lemma script_completes:
  assumes "parse_args registry_keys json_loads c = Inr a"
    and "0 < tr_batch_size a" and "0 < val_batch_size a" and "0 \<le> num_epochs a"
  shows "\<exists>s'. script t registry_keys json_loads run_id run_dir c = Inr s' \<and>
     sized (nat (num_epochs a)) s' \<and>
     saved (trace s') = map epoch_file (epochs a) \<and>
     figures (trace s') = replicate (nat (num_epochs a)) ''current_metrics.pdf'' \<and>
     (\<forall>e. 1 \<le> e \<and> e \<le> nat (num_epochs a) \<and> val_batches t a e = [] \<longrightarrow>
          val_psnr s' ! (e - 1) = NaN) \<and>
     (0 < num_epochs a \<longrightarrow>
        files s' ''current_metrics.pdf'' = Some (figure_of (nat (num_epochs a)) s')) \<and>
     files s' ''train_dirs.json'' =
       Some (JsonDirs (train_dirs a (all_data_dirs (glob t (count_level a))))) \<and>
     files s' ''val_dirs.json'' =
       Some (JsonDirs (val_dirs a (all_data_dirs (glob t (count_level a)))))"
proof -
  let ?s = "start_state t a run_id run_dir"
  let ?s0 = "emit (SetMode Training) (?s\<lparr>mode := Training\<rparr>)"
  let ?n = "nat (num_epochs a)"
  have run: "script t registry_keys json_loads run_id run_dir c =
      for_each (epoch_body t a (train_batches t a) (val_batches t a)) [1..<Suc ?n] ?s0"
    using assms by (simp add: script_training training_epochs)
  have z: "sized ?n ?s0"
    by (rule loop_start_sized) (rule start_state_sized)
  from epochs_saved [OF z order_refl, of t a "train_batches t a" "val_batches t a"]
  obtain s' where 1:
    "for_each (epoch_body t a (train_batches t a) (val_batches t a)) [1..<Suc ?n] ?s0 = Inr s'"
    "sized ?n s'"
    "saved (trace s') = saved (trace ?s0) @ map epoch_file [1..<Suc ?n]"
    by blast
  from epochs_figures [OF z order_refl, of t a "train_batches t a" "val_batches t a"] 1(1)
  have 2: "figures (trace s') = figures (trace ?s0) @ replicate ?n ''current_metrics.pdf''"
    "\<forall>e. 1 \<le> e \<and> e \<le> ?n \<and> val_batches t a e = [] \<longrightarrow> val_psnr s' ! (e - 1) = NaN"
    "0 < ?n \<longrightarrow> files s' ''current_metrics.pdf'' = Some (figure_of ?n s')"
    "\<forall>name. name \<noteq> ''best.pth'' \<and> name \<noteq> ''current_metrics.pdf'' \<and>
            name \<notin> range epoch_file \<longrightarrow> files s' name = files ?s0 name"
    by auto
  have 3: "files s' ''train_dirs.json'' = files ?s0 ''train_dirs.json''"
    "files s' ''val_dirs.json'' = files ?s0 ''val_dirs.json''"
    using 2(4) by simp_all
  have 4: "files ?s0 ''train_dirs.json'' =
       Some (JsonDirs (train_dirs a (all_data_dirs (glob t (count_level a)))))"
    "files ?s0 ''val_dirs.json'' =
       Some (JsonDirs (val_dirs a (all_data_dirs (glob t (count_level a)))))"
    unfolding loop_start_views by (simp_all add: start_state_def Let_def)
  show ?thesis
    using run 1 2(1,2,3) 3 4
    by (simp add: loop_start_views start_state_views epochs_def)
qed

section \<open>The flag of the gradient norms\<close>

lemma same_end_simps [simp]:
  "same_end R (Inl (e, w)) (Inl (e', w')) \<longleftrightarrow> e' = e \<and> flag_only_prints w w'"
  "same_end R (Inr x) (Inr x') \<longleftrightarrow> R x x'"
  "same_end R (Inl ew) (Inr x') \<longleftrightarrow> False"
  "same_end R (Inr x) (Inl ew') \<longleftrightarrow> False"
  by (simp_all add: same_end_def split: prod.splits)

lemma same_end_for_each:
  assumes "\<And>x acc acc'. R acc acc' \<Longrightarrow> same_end R (f x acc) (g x acc')"
  shows "R acc acc' \<Longrightarrow> same_end R (for_each f xs acc) (for_each g xs acc')"
proof (induction xs arbitrary: acc acc')
  case Nil
  then show ?case by simp
next
  case (Cons x xs)
  from assms [OF Cons.prems, of x] Cons.IH show ?case
    by (cases "f x acc"; cases "g x acc'") auto
qed

lemma same_end_bind:
  assumes "same_end R r r'"
    and "\<And>x x'. R x x' \<Longrightarrow> same_end Q (k x) (k' x')"
  shows "same_end Q (case r of Inl e \<Rightarrow> Inl e | Inr x \<Rightarrow> k x)
                    (case r' of Inl e \<Rightarrow> Inl e | Inr x \<Rightarrow> k' x)"
  using assms by (cases r; cases r') auto

lemma agree_files:
  "(f'(''args.json'' := None) = f(''args.json'' := None)) \<longleftrightarrow>
   (\<forall>name. name \<noteq> ''args.json'' \<longrightarrow> f' name = f name)"
  by (auto simp add: fun_eq_iff)

lemmas flag_defs = same_training_def same_vars_def flag_only_prints_def agree_files

lemma flag_train_batch:
  assumes "same_training s s'"
  shows "same_end (\<lambda>(s, bl) (s', bl'). same_training s s' \<and> bl' = bl)
           (train_batch t a epoch n ib (s, bl))
           (train_batch t (a\<lparr>print_gradient_norms := False\<rparr>) epoch n ib (s', bl))"
  using assms
  by (cases ib; cases "tensor_set bl (fst ib) (criterion t (mode s) (params s) (snd ib))")
     (auto simp add: train_batch_def world_ops views flag_defs Let_def world.defs
       split: prod.splits)


lemma flag_train_epoch:
  assumes "same_training s s'"
  shows "same_end same_training
           (train_epoch t a epoch batches s)
           (train_epoch t (a\<lparr>print_gradient_norms := False\<rparr>) epoch batches s')"
proof -
  let ?R = "\<lambda>(s, bl) (s', bl'). same_training s s' \<and> bl' = bl"
  have "same_end ?R
      (for_each (train_batch t a epoch (length batches)) (enumerate 0 batches)
         (s, replicate (length batches) (Fin 0)))
      (for_each (train_batch t (a\<lparr>print_gradient_norms := False\<rparr>) epoch (length batches))
         (enumerate 0 batches) (s', replicate (length batches) (Fin 0)))"
  proof (rule same_end_for_each)
    show "?R (s, replicate (length batches) (Fin 0)) (s', replicate (length batches) (Fin 0))"
      using assms by simp
  next
    fix x and acc acc' :: "('a, 'b) state \<times> fval list"
    assume "?R acc acc'"
    then show "same_end ?R (train_batch t a epoch (length batches) x acc)
        (train_batch t (a\<lparr>print_gradient_norms := False\<rparr>) epoch (length batches) x acc')"
      using flag_train_batch [of "fst acc" "fst acc'" t a epoch "length batches" x "snd acc"]
      by (cases acc; cases acc') simp
  qed
  then show ?thesis
    unfolding train_epoch_def Let_def
  proof (rule same_end_bind)
    fix x x' :: "('a, 'b) state \<times> fval list"
    assume "?R x x'"
    then show "same_end same_training
        (case x of (s1, batch_losses) \<Rightarrow>
           case tensor_set (train_loss_avg s1) (epoch - 1) (tensor_mean batch_losses) of
             Inl e \<Rightarrow> raise e s1
           | Inr tla \<Rightarrow> Inr (emit (Print (TrainSummary epoch)) (s1\<lparr>train_loss_avg := tla\<rparr>)))
        (case x' of (s1, batch_losses) \<Rightarrow>
           case tensor_set (train_loss_avg s1) (epoch - 1) (tensor_mean batch_losses) of
             Inl e \<Rightarrow> raise e s1
           | Inr tla \<Rightarrow> Inr (emit (Print (TrainSummary epoch)) (s1\<lparr>train_loss_avg := tla\<rparr>)))"
      by (cases x; cases x')
         (auto simp add: world_ops views flag_defs world.defs split: sum.splits)
  qed
qed

lemma flag_val_batch:
  assumes "same_training s s'"
  shows "same_end (\<lambda>(s, vl, bp) (s', vl', bp'). same_training s s' \<and> vl' = vl \<and> bp' = bp)
           (val_batch t ib (s, vl, bp)) (val_batch t ib (s', vl, bp))"
  using assms
  by (cases ib)
     (auto simp add: val_batch_def world_ops views flag_defs Let_def world.defs
       split: prod.splits sum.splits)

lemma flag_validate:
  assumes "same_training s s'"
  shows "same_end same_training (validate t epoch batches s) (validate t epoch batches s')"
proof -
  let ?R = "\<lambda>(s, vl, bp) (s', vl', bp'). same_training s s' \<and> vl' = vl \<and> bp' = bp"
  let ?i = "\<lambda>s. ((emit (SetMode Evaluation) (s\<lparr>mode := Evaluation\<rparr>))\<lparr>grad_enabled := False\<rparr>,
                replicate (length batches) (Fin 0), replicate (length batches) (Fin 0))"
  have g: "grad_enabled s' = grad_enabled s"
    using assms by (simp add: flag_defs)
  have "same_end ?R (for_each (val_batch t) (enumerate 0 batches) (?i s))
      (for_each (val_batch t) (enumerate 0 batches) (?i s'))"
  proof (rule same_end_for_each)
    show "?R (?i s) (?i s')"
      using assms by (simp add: world_ops views flag_defs)
  next
    fix x and acc acc' :: "('a, 'b) state \<times> fval list \<times> fval list"
    assume "?R acc acc'"
    then show "same_end ?R (val_batch t x acc) (val_batch t x acc')"
      using flag_val_batch [of "fst acc" "fst acc'" t x "fst (snd acc)" "snd (snd acc)"]
      by (cases acc; cases acc') simp
  qed
  then show ?thesis
    unfolding validate_def Let_def
  proof (rule same_end_bind)
    fix x x' :: "('a, 'b) state \<times> fval list \<times> fval list"
    assume "?R x x'"
    then show "same_end same_training
        (case x of (s3, val_losses, batch_psnr) \<Rightarrow>
           case tensor_set (val_loss_avg s3) (epoch - 1) (tensor_mean val_losses) of
             Inl e \<Rightarrow> raise e s3
           | Inr vla \<Rightarrow>
               (case tensor_set (val_psnr s3) (epoch - 1) (tensor_mean batch_psnr) of
                  Inl e \<Rightarrow> raise e (s3\<lparr>val_loss_avg := vla\<rparr>)
                | Inr vp \<Rightarrow>
                    Inr ((print_lines [ValLoss epoch, ValPsnr epoch]
                           (s3\<lparr>val_loss_avg := vla, val_psnr := vp\<rparr>))
                         \<lparr>grad_enabled := grad_enabled (emit (SetMode Evaluation) (s\<lparr>mode := Evaluation\<rparr>))\<rparr>)))
        (case x' of (s3, val_losses, batch_psnr) \<Rightarrow>
           case tensor_set (val_loss_avg s3) (epoch - 1) (tensor_mean val_losses) of
             Inl e \<Rightarrow> raise e s3
           | Inr vla \<Rightarrow>
               (case tensor_set (val_psnr s3) (epoch - 1) (tensor_mean batch_psnr) of
                  Inl e \<Rightarrow> raise e (s3\<lparr>val_loss_avg := vla\<rparr>)
                | Inr vp \<Rightarrow>
                    Inr ((print_lines [ValLoss epoch, ValPsnr epoch]
                           (s3\<lparr>val_loss_avg := vla, val_psnr := vp\<rparr>))
                         \<lparr>grad_enabled := grad_enabled (emit (SetMode Evaluation) (s'\<lparr>mode := Evaluation\<rparr>))\<rparr>)))"
      using g
      by (cases x; cases x')
         (auto simp add: world_ops views flag_defs world.defs split: sum.splits)
  qed
qed

lemma flag_save_checkpoint:
  assumes "same_training s s'"
  shows "same_end same_training (save_checkpoint a epoch s)
           (save_checkpoint (a\<lparr>print_gradient_norms := False\<rparr>) epoch s')"
  using assms
  by (auto simp add: save_checkpoint_def world_ops views flag_defs world.defs epoch_file_def
       split: sum.splits)

lemma flag_update_best:
  assumes "same_training s s'"
  shows "same_end same_training (update_best epoch s) (update_best epoch s')"
proof -
  have v: "val_psnr s' = val_psnr s" and b: "files s' ''best.pth'' = files s ''best.pth''"
    using assms by (simp_all add: flag_defs)
  show ?thesis
    using assms
    by (cases "is_best epoch (val_psnr s)")
       (auto simp add: update_best_def v b world_ops views flag_defs world.defs Let_def
         split: bool.splits)
qed

lemma flag_plot_metrics:
  assumes "same_training s s'"
  shows "same_training (plot_metrics epoch s) (plot_metrics epoch s')"
  using assms
  by (auto simp add: plot_metrics_def world_ops views flag_defs)


lemma flag_epoch_body:
  assumes "same_training s s'"
  shows "same_end same_training
           (epoch_body t a train_loader val_loader epoch s)
           (epoch_body t (a\<lparr>print_gradient_norms := False\<rparr>) train_loader val_loader epoch s')"
  unfolding epoch_body_def
  by (intro same_end_bind [OF flag_train_epoch [OF assms]] same_end_bind [OF flag_validate]
      same_end_bind [OF flag_save_checkpoint] same_end_bind [OF flag_update_best])
     (simp_all add: flag_plot_metrics)

lemma flag_epochs: "epochs (a\<lparr>print_gradient_norms := b\<rparr>) = epochs a"
  by (simp add: epochs_def)

lemma flag_training:
  assumes "same_training s s'"
  shows "same_end same_training
           (training t a train_loader val_loader s)
           (training t (a\<lparr>print_gradient_norms := False\<rparr>) train_loader val_loader s')"
  unfolding training_def flag_epochs
proof (rule same_end_for_each)
  show "same_training (emit (SetMode Training) (s\<lparr>mode := Training\<rparr>))
     (emit (SetMode Training) (s'\<lparr>mode := Training\<rparr>))"
    using assms by (simp add: world_ops views flag_defs)
next
  fix x and acc acc' :: "('a, 'b) state"
  assume "same_training acc acc'"
  then show "same_end same_training (epoch_body t a train_loader val_loader x acc)
        (epoch_body t (a\<lparr>print_gradient_norms := False\<rparr>) train_loader val_loader x acc')"
    by (rule flag_epoch_body)
qed

lemma parse_args_flag:
  "parse_args registry_keys json_loads (c\<lparr>c_print_gradient_norms := b\<rparr>) =
     (case parse_args registry_keys json_loads c of
        Inl e \<Rightarrow> Inl e
      | Inr a \<Rightarrow> Inr (a\<lparr>print_gradient_norms := b\<rparr>))"
  by (auto simp add: parse_args_def split: option.splits sum.splits error.splits)

lemma flag_script:
  "same_end same_training
     (script t registry_keys json_loads run_id run_dir c)
     (script t registry_keys json_loads run_id run_dir (c\<lparr>c_print_gradient_norms := False\<rparr>))"
proof (cases "parse_args registry_keys json_loads c")
  case (Inl e)
  then show ?thesis
    by (simp add: script_def parse_args_flag raise_def world.defs flag_only_prints_def)
next
  case (Inr a)
  let ?a' = "a\<lparr>print_gradient_norms := False\<rparr>"
  have p': "parse_args registry_keys json_loads (c\<lparr>c_print_gradient_norms := False\<rparr>) = Inr ?a'"
    using Inr by (simp add: parse_args_flag)
  show ?thesis
  proof (cases "0 < tr_batch_size a \<and> 0 < val_batch_size a \<and> 0 \<le> num_epochs a")
    case True
    have 1: "script t registry_keys json_loads run_id run_dir c =
        training t a (train_batches t a) (val_batches t a) (start_state t a run_id run_dir)"
      using Inr True by (intro script_training) simp_all
    have 2: "script t registry_keys json_loads run_id run_dir (c\<lparr>c_print_gradient_norms := False\<rparr>) =
        training t ?a' (train_batches t ?a') (val_batches t ?a') (start_state t ?a' run_id run_dir)"
      using p' True by (intro script_training) simp_all
    have 3: "train_batches t ?a' = train_batches t a" "val_batches t ?a' = val_batches t a"
      by (simp_all add: train_batches_def val_batches_def train_dirs_def val_dirs_def)
    have 4: "same_training (start_state t a run_id run_dir) (start_state t ?a' run_id run_dir)"
      by (simp add: start_state_def Let_def flag_defs views train_dirs_def val_dirs_def)
    show ?thesis unfolding 1 2 3 using 4 by (rule flag_training)
  next
    case False
    then show ?thesis
      using Inr p'
      by (auto simp add: script_def data_loader_def zeros_def Let_def world_ops world.defs
          flag_only_prints_def agree_files train_dirs_def val_dirs_def)
  qed
qed

lemma filter_grad_norm_lines:
  assumes "filter (\<lambda>e. \<not> is_args_write e) tr' =
           filter (\<lambda>e. \<not> is_grad_norm_line e \<and> \<not> is_args_write e) tr"
  shows "filter is_grad_norm_line tr' = []"
proof -
  have g: "is_grad_norm_line e \<Longrightarrow> \<not> is_args_write e" for e :: "('a, 'b) event"
    by (cases e rule: is_args_write.cases) simp_all
  have "filter is_grad_norm_line tr' =
      filter is_grad_norm_line (filter (\<lambda>e. \<not> is_args_write e) tr')"
    unfolding filter_filter by (rule filter_cong) (auto dest: g)
  also have "\<dots> = []"
    unfolding assms filter_filter by (auto simp add: filter_empty_conv)
  finally show ?thesis .
qed

section \<open>The batches of the two loaders\<close>

lemma length_chunks: "0 < b \<Longrightarrow> length (chunks b xs) = (length xs + b - 1) div b"
proof (induction b xs rule: chunks.induct)
  case (1 b xs)
  show ?case
  proof (cases "xs = []")
    case True
    then show ?thesis using 1(2) by simp
  next
    case False
    show ?thesis
    proof (cases "length xs \<le> b")
      case True
      obtain n where n: "length xs = Suc n" using False by (cases xs) simp_all
      have "(length xs + b - 1) div b = 1"
        using True 1(2) unfolding n by (intro div_nat_eqI) simp_all
      then show ?thesis using chunks_short [OF 1(2) False True] by simp
    next
      case gt: False
      then have ge: "b \<le> length xs" by simp
      have ih: "length (chunks b (drop b xs)) = (length (drop b xs) + b - 1) div b"
        using 1(1) 1(2) False by simp
      have "(length xs + b - 1) div b = Suc ((length xs - b + b - 1) div b)"
      proof -
        have "length xs + b - 1 = (length xs - b + b - 1) + b" using ge 1(2) by simp
        then show ?thesis using 1(2) by (simp only: div_add_self2)
      qed
      then show ?thesis
        using chunks_long [OF 1(2) ge] ih by simp
    qed
  qed
qed

lemma full_batches_idem:
  assumes "0 < b"
  shows "loader_batches b True (full_batches_part b xs) = loader_batches b True xs"
proof -
  let ?k = "length xs - length xs mod b"
  have lk: "length (take ?k xs) = ?k" by simp
  have km: "?k mod b = 0" by (simp add: minus_mod_eq_mult_div)
  have "take (length (take ?k xs) - length (take ?k xs) mod b) (take ?k xs) = take ?k xs"
    by (simp only: lk km) simp
  then have "loader_batches b True (take ?k xs) = chunks b (take ?k xs)"
    using full_chunks [OF assms, of "take ?k xs"] by (simp only: loader_batches_def if_True)
  moreover have "loader_batches b True xs = chunks b (take ?k xs)"
    using assms by (simp add: loader_batches_def full_chunks)
  ultimately show ?thesis by (simp add: full_batches_part_def)
qed

lemma dataset_train_batch:
  "train_batch (t\<lparr>dataset := d\<rparr>) a epoch n = train_batch t a epoch n"
  by (intro ext) (auto simp add: train_batch_def Let_def split: prod.splits sum.splits)

lemma dataset_train_epoch:
  "train_epoch (t\<lparr>dataset := d\<rparr>) a epoch = train_epoch t a epoch"
  by (intro ext) (simp add: train_epoch_def dataset_train_batch)

lemma dataset_val_batch: "val_batch (t\<lparr>dataset := d\<rparr>) = val_batch t"
  by (intro ext) (auto simp add: val_batch_def Let_def split: prod.splits sum.splits)

lemma dataset_validate: "validate (t\<lparr>dataset := d\<rparr>) epoch = validate t epoch"
  by (intro ext) (simp add: validate_def dataset_val_batch)

lemma dataset_epoch_body:
  "epoch_body (t\<lparr>dataset := d\<rparr>) a train_loader val_loader =
   epoch_body t a train_loader val_loader"
  by (intro ext) (simp add: epoch_body_def dataset_train_epoch dataset_validate split: sum.splits)

lemma dataset_training:
  "training (t\<lparr>dataset := d\<rparr>) a train_loader val_loader s =
   training t a train_loader val_loader s"
  by (simp add: training_def dataset_epoch_body)

lemma cut_training_tail_run:
  assumes "0 < tr_batch_size a"
  shows "start_state (cut_training_tail (nat (tr_batch_size a)) t) a run_id run_dir =
           start_state t a run_id run_dir"
    and "train_batches (cut_training_tail (nat (tr_batch_size a)) t) a = train_batches t a"
    and "val_batches (cut_training_tail (nat (tr_batch_size a)) t) a = val_batches t a"
    and "training (cut_training_tail (nat (tr_batch_size a)) t) a train_loader val_loader s =
           training t a train_loader val_loader s"
proof -
  have b: "0 < nat (tr_batch_size a)" using assms by simp
  show "start_state (cut_training_tail (nat (tr_batch_size a)) t) a run_id run_dir =
           start_state t a run_id run_dir"
    by (simp add: start_state_def cut_training_tail_def)
  show "train_batches (cut_training_tail (nat (tr_batch_size a)) t) a = train_batches t a"
    by (intro ext) (simp add: train_batches_def cut_training_tail_def full_batches_idem [OF b])
  show "val_batches (cut_training_tail (nat (tr_batch_size a)) t) a = val_batches t a"
    by (simp add: val_batches_def cut_training_tail_def)
  show "training (cut_training_tail (nat (tr_batch_size a)) t) a train_loader val_loader s =
           training t a train_loader val_loader s"
    by (simp add: cut_training_tail_def dataset_training)
qed

lemma script_loaders:
  assumes "0 < tr_batch_size a" and "0 < val_batch_size a"
  shows "concat (train_batches t a k) = full_batches_part (nat (tr_batch_size a)) (train_samples t a k)"
    and "list_all (\<lambda>c. length c = nat (tr_batch_size a)) (train_batches t a k)"
    and "length (train_batches t a k) = length (train_samples t a k) div nat (tr_batch_size a)"
    and "concat (val_batches t a k) = val_samples t a k"
    and "length (val_batches t a k) =
           (length (val_samples t a k) + nat (val_batch_size a) - 1) div nat (val_batch_size a)"
    and "length (val_samples t a k) mod nat (val_batch_size a) \<noteq> 0 \<Longrightarrow>
           last (val_batches t a k) =
             drop (length (val_samples t a k) - length (val_samples t a k) mod nat (val_batch_size a))
               (val_samples t a k)"
proof -
  have b: "0 < nat (tr_batch_size a)" and v: "0 < nat (val_batch_size a)"
    using assms by simp_all
  show "concat (train_batches t a k) = full_batches_part (nat (tr_batch_size a)) (train_samples t a k)"
    by (simp add: train_batches_def train_samples_def loader_batches_def full_chunks [OF b]
        chunks_concat [OF b] full_batches_part_def)
  show "list_all (\<lambda>c. length c = nat (tr_batch_size a)) (train_batches t a k)"
    by (simp add: train_batches_def loader_batches_def list_all_iff)
  show "length (train_batches t a k) = length (train_samples t a k) div nat (tr_batch_size a)"
    by (simp add: train_batches_def train_samples_def loader_batches_def length_drop_last [OF b])
  show "concat (val_batches t a k) = val_samples t a k"
    by (simp add: val_batches_def val_samples_def loader_batches_def chunks_concat [OF v])
  show "length (val_batches t a k) =
           (length (val_samples t a k) + nat (val_batch_size a) - 1) div nat (val_batch_size a)"
    by (simp add: val_batches_def val_samples_def loader_batches_def length_chunks [OF v])
  show "length (val_samples t a k) mod nat (val_batch_size a) \<noteq> 0 \<Longrightarrow>
           last (val_batches t a k) =
             drop (length (val_samples t a k) - length (val_samples t a k) mod nat (val_batch_size a))
               (val_samples t a k)"
    using last_chunk [OF v, of "val_samples t a k"]
    by (simp add: val_batches_def val_samples_def loader_batches_def)
qed

section \<open>The split of the data directories\<close>

text \<open>
  Claim C3. The split has no randomness: the directories found for the count level are
  sorted, so the result does not depend on the order in which they are listed; the
  training list is the first \<open>num_training_samples\<close> directories, the validation list the
  next \<open>num_validation_samples\<close> ones, and the two are adjacent slices with no directory
  in common. The sample counts are counts: not negative.
\<close>

theorem split_sorted_contiguous:
  assumes "0 \<le> num_training_samples a" and "0 \<le> num_validation_samples a"
    and "distinct found" and "distinct found'" and "set found' = set found"
  shows "all_data_dirs found' = all_data_dirs found \<and>
         sorted (all_data_dirs found) \<and> set (all_data_dirs found) = set found \<and>
         train_dirs a (all_data_dirs found) =
           take (nat (num_training_samples a)) (all_data_dirs found) \<and>
         val_dirs a (all_data_dirs found) =
           take (nat (num_validation_samples a))
             (drop (nat (num_training_samples a)) (all_data_dirs found)) \<and>
         train_dirs a (all_data_dirs found) @ val_dirs a (all_data_dirs found) =
           take (nat (num_training_samples a) + nat (num_validation_samples a))
             (all_data_dirs found) \<and>
         set (train_dirs a (all_data_dirs found)) \<inter> set (val_dirs a (all_data_dirs found)) = {}"
proof -
  let ?dirs = "all_data_dirs found"
  let ?n = "nat (num_training_samples a)" and ?m = "nat (num_validation_samples a)"
  have same: "all_data_dirs found' = ?dirs"
    unfolding all_data_dirs_def using assms(3-5) by (intro sort_set_eq) simp_all
  have srt: "sorted ?dirs" "set ?dirs = set found" "distinct ?dirs"
    using assms(3) by (simp_all add: all_data_dirs_def)
  have tr: "train_dirs a ?dirs = take ?n ?dirs"
    using assms(1) by (simp add: train_dirs_def py_slice_prefix)
  have va: "val_dirs a ?dirs = take ?m (drop ?n ?dirs)"
    using assms(1,2) by (simp add: val_dirs_def py_slice_range)
  have cat: "take ?n ?dirs @ take ?m (drop ?n ?dirs) = take (?n + ?m) ?dirs"
    by (simp add: take_add)
  have "set (take ?n ?dirs) \<inter> set (drop ?n ?dirs) = {}"
    using srt(3) by (rule set_take_disj_set_drop_if_distinct) simp
  moreover have "set (take ?m (drop ?n ?dirs)) \<subseteq> set (drop ?n ?dirs)"
    by (rule set_take_subset)
  ultimately have dis: "set (take ?n ?dirs) \<inter> set (take ?m (drop ?n ?dirs)) = {}"
    by blast
  show ?thesis using same srt(1,2) tr va cat dis by simp
qed

theorem split_sorted_contiguous_witness:
  "0 \<le> num_training_samples example_args \<and> 0 \<le> num_validation_samples example_args \<and>
   distinct [''s3'', ''s1'', ''s2'', ''s4''] \<and>
   all_data_dirs [''s4'', ''s3'', ''s2'', ''s1''] = all_data_dirs [''s3'', ''s1'', ''s2'', ''s4''] \<and>
   all_data_dirs [''s3'', ''s1'', ''s2'', ''s4''] = [''s1'', ''s2'', ''s3'', ''s4''] \<and>
   train_dirs example_args (all_data_dirs [''s3'', ''s1'', ''s2'', ''s4'']) = [''s1'', ''s2''] \<and>
   val_dirs example_args (all_data_dirs [''s3'', ''s1'', ''s2'', ''s4'']) = [''s3'']"
proof -
  have s: "all_data_dirs [''s3'', ''s1'', ''s2'', ''s4''] = [''s1'', ''s2'', ''s3'', ''s4'']"
    unfolding all_data_dirs_def by code_simp
  have h: "0 \<le> num_training_samples example_args" "0 \<le> num_validation_samples example_args"
    by (simp_all add: example_args_def)
  have d: "distinct [''s3'', ''s1'', ''s2'', ''s4'']" "distinct [''s4'', ''s3'', ''s2'', ''s1'']"
    "set [''s4'', ''s3'', ''s2'', ''s1''] = set [''s3'', ''s1'', ''s2'', ''s4'']"
    by auto
  from split_sorted_contiguous [OF h d] show ?thesis
    using h d(1) unfolding s by (simp add: example_args_def)
qed

section \<open>The incomplete last batch\<close>

text \<open>
  Claim C10. In every epoch of a run of the script, the training loader
  (\<^verbatim>\<open>drop_last=True\<close>) yields the full batches only: the samples of an incomplete tail are in
  no batch, and the whole run, its losses and its parameter updates, is the run in which the
  training dataset does not yield these samples at all. The validation loader yields every
  sample, in one more batch when the samples are no multiple of the batch size, and this
  last batch is the incomplete one. So an epoch makes one training forward pass for each
  full batch of training samples, and one validation forward pass for each batch of
  validation samples, the incomplete one included.
\<close>

theorem train_loader_drops_incomplete_batch:
  assumes "parse_args registry_keys json_loads c = Inr a"
    and "0 < tr_batch_size a" and "0 < val_batch_size a" and "0 \<le> num_epochs a"
  shows "\<exists>s'. script t registry_keys json_loads run_id run_dir c = Inr s' \<and>
     script (cut_training_tail (nat (tr_batch_size a)) t) registry_keys json_loads
       run_id run_dir c = Inr s' \<and>
     mode_view (trace s') =
       SetMode Training #
       concat (map (\<lambda>e.
         replicate (length (train_samples t a e) div nat (tr_batch_size a))
           (Forward (if e = 1 then Training else Evaluation) True) @
         SetMode Evaluation #
         replicate
           ((length (val_samples t a e) + nat (val_batch_size a) - 1) div nat (val_batch_size a))
           (Forward Evaluation False)) (epochs a)) \<and>
     (\<forall>k. concat (train_batches t a k) =
            take (length (train_samples t a k) -
                  length (train_samples t a k) mod nat (tr_batch_size a)) (train_samples t a k) \<and>
          list_all (\<lambda>batch. length batch = nat (tr_batch_size a)) (train_batches t a k) \<and>
          length (train_batches t a k) = length (train_samples t a k) div nat (tr_batch_size a) \<and>
          concat (val_batches t a k) = val_samples t a k \<and>
          (length (val_samples t a k) mod nat (val_batch_size a) \<noteq> 0 \<longrightarrow>
             last (val_batches t a k) =
               drop (length (val_samples t a k) -
                     length (val_samples t a k) mod nat (val_batch_size a)) (val_samples t a k) \<and>
             length (last (val_batches t a k)) =
               length (val_samples t a k) mod nat (val_batch_size a)))"
proof -
  let ?b = "nat (tr_batch_size a)" and ?v = "nat (val_batch_size a)"
  let ?t' = "cut_training_tail ?b t"
  let ?s = "start_state t a run_id run_dir"
  note l = script_loaders [OF assms(2,3), of t]
  have run: "script t registry_keys json_loads run_id run_dir c =
      training t a (train_batches t a) (val_batches t a) ?s"
    using assms by (intro script_training)
  have "script ?t' registry_keys json_loads run_id run_dir c =
      training ?t' a (train_batches ?t' a) (val_batches ?t' a) (start_state ?t' a run_id run_dir)"
    using assms by (intro script_training)
  then have run': "script ?t' registry_keys json_loads run_id run_dir c =
      training t a (train_batches t a) (val_batches t a) ?s"
    by (simp only: cut_training_tail_run [OF assms(2)])
  from training_modes [where s = ?s and a = a and t = t and train_loader = "train_batches t a"
      and val_loader = "val_batches t a", OF start_state_sized]
  obtain s' where s': "training t a (train_batches t a) (val_batches t a) ?s = Inr s'"
    "mode_view (trace s') =
       SetMode Training # mode_trace Training True (train_batches t a) (val_batches t a) (epochs a)"
    by (auto simp add: start_state_views)
  have m: "mode_view (trace s') =
       SetMode Training #
       concat (map (\<lambda>e.
         replicate (length (train_samples t a e) div ?b)
           (Forward (if e = 1 then Training else Evaluation) True) @
         SetMode Evaluation #
         replicate ((length (val_samples t a e) + ?v - 1) div ?v)
           (Forward Evaluation False)) (epochs a))"
    unfolding s'(2) mode_trace_def l(3,5) ..
  have t: "length (last (val_batches t a k)) = length (val_samples t a k) mod ?v"
    if "length (val_samples t a k) mod ?v \<noteq> 0" for k
  proof -
    have "length (drop (length (val_samples t a k) - length (val_samples t a k) mod ?v)
        (val_samples t a k)) = length (val_samples t a k) mod ?v"
      using mod_less_eq_dividend [of "length (val_samples t a k)" ?v] by simp
    with l(6) [OF that] show ?thesis by simp
  qed
  have loaders: "concat (train_batches t a k) =
            take (length (train_samples t a k) - length (train_samples t a k) mod ?b)
              (train_samples t a k) \<and>
          list_all (\<lambda>batch. length batch = ?b) (train_batches t a k) \<and>
          length (train_batches t a k) = length (train_samples t a k) div ?b \<and>
          concat (val_batches t a k) = val_samples t a k \<and>
          (length (val_samples t a k) mod ?v \<noteq> 0 \<longrightarrow>
             last (val_batches t a k) =
               drop (length (val_samples t a k) - length (val_samples t a k) mod ?v)
                 (val_samples t a k) \<and>
             length (last (val_batches t a k)) = length (val_samples t a k) mod ?v)" for k
    using l(1) [of k] l(2) [of k] l(3) [of k] l(4) [of k] l(6) [of k] t [of k]
    by (simp add: full_batches_part_def)
  show ?thesis
    using run run' s'(1) m loaders by simp
qed

theorem train_loader_drops_incomplete_batch_witness:
  "parse_args [''UNet3D''] example_loads
     (example_cmdline\<lparr>c_num_training_samples := 3, c_val_batch_size := 2\<rparr>) =
     Inr (example_args\<lparr>num_training_samples := 3, val_batch_size := 2\<rparr>) \<and>
   train_samples example_torch (example_args\<lparr>num_training_samples := 3, val_batch_size := 2\<rparr>) 1 =
     [''s1'', ''s2'', ''s3''] \<and>
   train_batches example_torch (example_args\<lparr>num_training_samples := 3, val_batch_size := 2\<rparr>) 1 =
     [[''s1'', ''s2'']] \<and>
   val_samples example_torch (example_args\<lparr>num_training_samples := 3, val_batch_size := 2\<rparr>) 1 =
     [''s4''] \<and>
   length [''s4''] mod 2 \<noteq> 0 \<and>
   val_batches example_torch (example_args\<lparr>num_training_samples := 3, val_batch_size := 2\<rparr>) 1 =
     [[''s4'']] \<and>
   (case script example_torch [''UNet3D''] example_loads ''20240101_000000'' Map.empty
           (example_cmdline\<lparr>c_num_training_samples := 3, c_val_batch_size := 2\<rparr>) of
      Inl e \<Rightarrow> False
    | Inr s' \<Rightarrow>
        script (cut_training_tail 2 example_torch) [''UNet3D''] example_loads
          ''20240101_000000'' Map.empty
          (example_cmdline\<lparr>c_num_training_samples := 3, c_val_batch_size := 2\<rparr>) = Inr s' \<and>
        params s' = 5 \<and>
        mode_view (trace s') =
          [SetMode Training,
           Forward Training True, SetMode Evaluation, Forward Evaluation False,
           Forward Evaluation True, SetMode Evaluation, Forward Evaluation False,
           Forward Evaluation True, SetMode Evaluation, Forward Evaluation False,
           Forward Evaluation True, SetMode Evaluation, Forward Evaluation False,
           Forward Evaluation True, SetMode Evaluation, Forward Evaluation False])"
proof -
  let ?c = "example_cmdline\<lparr>c_num_training_samples := 3, c_val_batch_size := 2\<rparr>"
  let ?a = "example_args\<lparr>num_training_samples := 3, val_batch_size := 2\<rparr>"
  have p: "parse_args [''UNet3D''] example_loads ?c = Inr ?a"
    by (simp add: parse_args_def example_cmdline_def example_args_def)
  have h: "0 < tr_batch_size ?a" "0 < val_batch_size ?a" "0 \<le> num_epochs ?a"
    by (simp_all add: example_args_def)
  have b: "nat (tr_batch_size ?a) = 2" by (simp add: example_args_def)
  have e: "train_samples example_torch ?a 1 = [''s1'', ''s2'', ''s3'']"
    "train_batches example_torch ?a 1 = [[''s1'', ''s2'']]"
    "val_samples example_torch ?a 1 = [''s4'']"
    "val_batches example_torch ?a 1 = [[''s4'']]"
    by code_simp+
  have r: "case script example_torch [''UNet3D''] example_loads ''20240101_000000'' Map.empty ?c of
      Inl e \<Rightarrow> False
    | Inr s' \<Rightarrow>
        params s' = 5 \<and>
        mode_view (trace s') =
          [SetMode Training,
           Forward Training True, SetMode Evaluation, Forward Evaluation False,
           Forward Evaluation True, SetMode Evaluation, Forward Evaluation False,
           Forward Evaluation True, SetMode Evaluation, Forward Evaluation False,
           Forward Evaluation True, SetMode Evaluation, Forward Evaluation False,
           Forward Evaluation True, SetMode Evaluation, Forward Evaluation False]"
    by code_simp
  from train_loader_drops_incomplete_batch [OF p h, of example_torch "''20240101_000000''" Map.empty]
  obtain s' where s':
    "script example_torch [''UNet3D''] example_loads ''20240101_000000'' Map.empty ?c = Inr s'"
    "script (cut_training_tail 2 example_torch) [''UNet3D''] example_loads
          ''20240101_000000'' Map.empty ?c = Inr s'"
    unfolding b by blast
  show ?thesis
    using r p e unfolding s' by simp
qed

section \<open>The parser of the model arguments\<close>

text \<open>
  Claim C2. \<^verbatim>\<open>parse_json_model_kwargs\<close> returns the dictionary when the argument decodes to a
  JSON object; it raises an argument-type error carrying the decoder's message when the
  argument is not valid JSON, and an argument-type error saying that a JSON object is
  required when the argument decodes to anything else. Such an argument ends the script at
  the parsing of the command line, before anything is written or printed: the run directory
  is unchanged and the trace is empty.
\<close>

theorem model_kwargs_parser:
  "(json_loads arg = Inr (JObject d) \<longrightarrow> parse_json_model_kwargs json_loads arg = Inr d) \<and>
   (json_loads arg = Inl msg \<longrightarrow>
      parse_json_model_kwargs json_loads arg =
        Inl (ArgumentTypeError (''Invalid JSON for --model-kwargs: '' @ msg))) \<and>
   (json_loads arg = Inr v \<and> (\<forall>d. v \<noteq> JObject d) \<longrightarrow>
      parse_json_model_kwargs json_loads arg =
        Inl (ArgumentTypeError ''--model-kwargs must be a JSON object (i.e. dict)'')) \<and>
   (c_model_class c \<in> set registry_keys \<and> c_model_kwargs c = Some arg \<and>
    parse_json_model_kwargs json_loads arg = Inl (ArgumentTypeError m) \<longrightarrow>
      script t registry_keys json_loads run_id run_dir c =
        Inl (SystemExit (''argument --model_kwargs: '' @ m), \<lparr> files = run_dir, trace = [] \<rparr>))"
proof -
  have a: "json_loads arg = Inr (JObject d) \<Longrightarrow> parse_json_model_kwargs json_loads arg = Inr d"
    by (simp add: parse_json_model_kwargs_def)
  have b: "json_loads arg = Inl msg \<Longrightarrow>
      parse_json_model_kwargs json_loads arg =
        Inl (ArgumentTypeError (''Invalid JSON for --model-kwargs: '' @ msg))"
    by (simp add: parse_json_model_kwargs_def)
  have c: "json_loads arg = Inr v \<Longrightarrow> (\<forall>d. v \<noteq> JObject d) \<Longrightarrow>
      parse_json_model_kwargs json_loads arg =
        Inl (ArgumentTypeError ''--model-kwargs must be a JSON object (i.e. dict)'')"
    by (cases v) (simp_all add: parse_json_model_kwargs_def)
  have d: "c_model_class c \<in> set registry_keys \<Longrightarrow> c_model_kwargs c = Some arg \<Longrightarrow>
      parse_json_model_kwargs json_loads arg = Inl (ArgumentTypeError m) \<Longrightarrow>
      script t registry_keys json_loads run_id run_dir c =
        Inl (SystemExit (''argument --model_kwargs: '' @ m), \<lparr> files = run_dir, trace = [] \<rparr>)"
    by (simp add: script_def parse_args_def raise_def world.defs Let_def)
  show ?thesis using a b c d by blast
qed

theorem model_kwargs_parser_witness:
  "parse_json_model_kwargs example_loads ''{}'' = Inr [] \<and>
   parse_json_model_kwargs example_loads ''{features''
     = Inl (ArgumentTypeError
         ''Invalid JSON for --model-kwargs: Expecting value: line 1 column 1 (char 0)'') \<and>
   parse_json_model_kwargs example_loads ''[8, 16]''
     = Inl (ArgumentTypeError ''--model-kwargs must be a JSON object (i.e. dict)'') \<and>
   script example_torch [''UNet3D''] example_loads ''20240101_000000'' Map.empty
     (example_cmdline\<lparr>c_model_kwargs := Some ''[8, 16]''\<rparr>)
     = Inl (SystemExit
             ''argument --model_kwargs: --model-kwargs must be a JSON object (i.e. dict)'',
            \<lparr> files = Map.empty, trace = [] \<rparr>)"
proof -
  have l: "example_loads ''{}'' = Inr (JObject [])"
    "example_loads ''{features'' = Inl ''Expecting value: line 1 column 1 (char 0)''"
    "example_loads ''[8, 16]'' = Inr (JArray [JInt 8, JInt 16])"
    "\<forall>d. JArray [JInt 8, JInt 16] \<noteq> JObject d"
    by (simp_all add: example_loads_def)
  have c: "c_model_class (example_cmdline\<lparr>c_model_kwargs := Some ''[8, 16]''\<rparr>) \<in> set [''UNet3D'']"
    "c_model_kwargs (example_cmdline\<lparr>c_model_kwargs := Some ''[8, 16]''\<rparr>) = Some ''[8, 16]''"
    by (simp_all add: example_cmdline_def)
  note p = model_kwargs_parser [of example_loads _ _ _ _ _ "[''UNet3D'']"]
  have 1: "parse_json_model_kwargs example_loads ''{}'' = Inr []"
    using p [of "''{}''" "[]"] l(1) by blast
  have 2: "parse_json_model_kwargs example_loads ''{features''
     = Inl (ArgumentTypeError
         (''Invalid JSON for --model-kwargs: '' @ ''Expecting value: line 1 column 1 (char 0)''))"
    using p [of "''{features''" _ "''Expecting value: line 1 column 1 (char 0)''"] l(2) by blast
  have 3: "parse_json_model_kwargs example_loads ''[8, 16]''
     = Inl (ArgumentTypeError ''--model-kwargs must be a JSON object (i.e. dict)'')"
    using p [of "''[8, 16]''" _ _ "JArray [JInt 8, JInt 16]"] l(3,4) by blast
  have 4: "script example_torch [''UNet3D''] example_loads ''20240101_000000'' Map.empty
     (example_cmdline\<lparr>c_model_kwargs := Some ''[8, 16]''\<rparr>)
     = Inl (SystemExit
             (''argument --model_kwargs: '' @ ''--model-kwargs must be a JSON object (i.e. dict)''),
            \<lparr> files = Map.empty, trace = [] \<rparr>)"
    using p [of "''[8, 16]''" _ _ _ "example_cmdline\<lparr>c_model_kwargs := Some ''[8, 16]''\<rparr>"
               "''--model-kwargs must be a JSON object (i.e. dict)''" example_torch
               "''20240101_000000''" Map.empty] c 3
    by blast
  show ?thesis using 1 2 3 4 by simp
qed

section \<open>The best model\<close>

text \<open>
  Claim C1. In a run of the loop, \<^verbatim>\<open>best.pth\<close> is linked to the checkpoint of an epoch
  exactly when the epoch is the first one or its validation PSNR is strictly greater than
  that of every earlier epoch: the targets of the link are, in order, the checkpoints of
  these epochs, and at the end the link refers to the last of them. A tie does not move
  the link: when the validation PSNR of the five epochs is 0.5, 0.7, 0.6, 0.9, 0.9, the
  link refers to the checkpoint of epoch 4.
\<close>

theorem best_pointer_first_maximum:
  assumes "sized (nat (num_epochs a)) s"
  shows "\<exists>s'. training t a train_loader val_loader s = Inr s' \<and>
     link_targets (trace s') =
       link_targets (trace s) @
       map epoch_file (filter (\<lambda>e. new_best e (val_psnr s')) (epochs a)) \<and>
     (0 < num_epochs a \<longrightarrow>
        files s' ''best.pth'' =
          Some (Symlink (epoch_file (last (filter (\<lambda>e. new_best e (val_psnr s')) (epochs a)))))) \<and>
     (val_psnr s' = [Fin (5 / 10), Fin (7 / 10), Fin (6 / 10), Fin (9 / 10), Fin (9 / 10)] \<longrightarrow>
        files s' ''best.pth'' = Some (Symlink ''epoch_0004.pth''))"
proof -
  let ?n = "nat (num_epochs a)"
  from epochs_links [OF loop_start_sized [OF assms] order_refl, of t a train_loader val_loader]
  obtain s' where s': "training t a train_loader val_loader s = Inr s'" "sized ?n s'"
    "link_targets (trace s') =
       link_targets (trace s) @ map epoch_file (filter (\<lambda>e. new_best e (val_psnr s')) [1..<Suc ?n])"
    "files s' ''best.pth'' =
       (if ?n = 0 then files s ''best.pth''
        else Some (Symlink (epoch_file (last (filter (\<lambda>e. new_best e (val_psnr s')) [1..<Suc ?n])))))"
    unfolding training_epochs loop_start_views by blast
  have ex: "files s' ''best.pth'' = Some (Symlink ''epoch_0004.pth'')"
    if v: "val_psnr s' = [Fin (5 / 10), Fin (7 / 10), Fin (6 / 10), Fin (9 / 10), Fin (9 / 10)]"
  proof -
    have n: "?n = 5" using s'(2) v by (simp add: sized_def)
    have u: "[1..<Suc 5] = [1, 2, 3, 4, 5]" by code_simp
    have f: "filter (\<lambda>e. new_best e [Fin (5 / 10), Fin (7 / 10), Fin (6 / 10), Fin (9 / 10), Fin (9 / 10)])
               [1, 2, 3, 4, 5] = [1, 2, 4]"
      by (simp add: new_best_def)
    have e: "epoch_file 4 = ''epoch_0004.pth''" by code_simp
    show ?thesis using s'(4) unfolding n v u f by (simp add: e)
  qed
  show ?thesis
    using s'(1,3,4) ex by (auto simp add: epochs_def)
qed

theorem best_pointer_first_maximum_witness:
  "sized (nat (num_epochs example_args))
     (start_state example_torch example_args ''20240101_000000'' Map.empty) \<and>
   (case training example_torch example_args (train_batches example_torch example_args)
           (val_batches example_torch example_args)
           (start_state example_torch example_args ''20240101_000000'' Map.empty) of
      Inl e \<Rightarrow> False
    | Inr s' \<Rightarrow>
        val_psnr s' = [Fin (5 / 10), Fin (7 / 10), Fin (6 / 10), Fin (9 / 10), Fin (9 / 10)] \<and>
        files s' ''best.pth'' = Some (Symlink ''epoch_0004.pth''))"
proof -
  have r: "case training example_torch example_args (train_batches example_torch example_args)
           (val_batches example_torch example_args)
           (start_state example_torch example_args ''20240101_000000'' Map.empty) of
      Inl e \<Rightarrow> False
    | Inr s' \<Rightarrow>
        val_psnr s' = [Fin (5 / 10), Fin (7 / 10), Fin (6 / 10), Fin (9 / 10), Fin (9 / 10)]"
    by code_simp
  show ?thesis
    using best_pointer_first_maximum [where a = example_args and t = example_torch
        and train_loader = "train_batches example_torch example_args"
        and val_loader = "val_batches example_torch example_args"
        and s = "start_state example_torch example_args ''20240101_000000'' Map.empty"] r
    by (auto simp add: start_state_sized split: sum.splits)
qed

section \<open>The checkpoints\<close>

text \<open>
  Claim C4. After the first \<open>k\<close> epochs of the loop, one checkpoint has been saved for each
  of them, under the name of the epoch, and these names are different. The checkpoint of
  epoch \<open>e\<close> holds the class of the model, its keyword arguments, the parameters and the
  state of the optimizer at the end of epoch \<open>e\<close>, the number \<open>e\<close>, the validation PSNR of
  the epoch, and the tensor of the validation losses of the epochs so far. When the run
  directory held no checkpoint before the loop, it holds \<open>k\<close> checkpoint files.
\<close>

theorem one_checkpoint_per_epoch:
  assumes "sized n s" and "k \<le> n"
  shows "\<exists>s'. for_each (epoch_body t a train_loader val_loader) [1..<Suc k] s = Inr s' \<and>
     saved (trace s') = saved (trace s) @ map epoch_file [1..<Suc k] \<and>
     distinct (map epoch_file [1..<Suc k]) \<and>
     (\<forall>e \<in> {1..k}. \<exists>se.
        for_each (epoch_body t a train_loader val_loader) [1..<Suc e] s = Inr se \<and>
        files s' (epoch_file e) =
          Some (Checkpoint
            \<lparr> ck_model_class = model_class a, ck_model_kwargs = model_kwargs a,
              ck_model_state_dict = params se, ck_optimizer_state_dict = opt se,
              ck_epoch = e, ck_val_pnsr = val_psnr se ! (e - 1),
              ck_val_loss = val_loss_avg se \<rparr>)) \<and>
     ((\<forall>name c. files s name \<noteq> Some (Checkpoint c)) \<longrightarrow>
        {name. \<exists>c. files s' name = Some (Checkpoint c)} = epoch_file ` {1..k} \<and>
        card {name. \<exists>c. files s' name = Some (Checkpoint c)} = k)"
proof -
  from epochs_saved [OF assms, of t a train_loader val_loader]
  obtain s' where s': "for_each (epoch_body t a train_loader val_loader) [1..<Suc k] s = Inr s'"
    "saved (trace s') = saved (trace s) @ map epoch_file [1..<Suc k]"
    "\<forall>e. 1 \<le> e \<and> e \<le> k \<longrightarrow>
       (\<exists>se. for_each (epoch_body t a train_loader val_loader) [1..<Suc e] s = Inr se \<and>
             files s' (epoch_file e) = Some (Checkpoint (checkpoint_of a e se)))"
    "\<forall>name c. files s' name = Some (Checkpoint c) \<longrightarrow>
       (\<exists>c0. files s name = Some (Checkpoint c0)) \<or> name \<in> epoch_file ` {1..k}"
    by blast
  have d: "distinct (map epoch_file [1..<Suc k])"
    by (simp add: distinct_map epoch_file_inj_on)
  have c: "\<forall>e \<in> {1..k}. \<exists>se.
        for_each (epoch_body t a train_loader val_loader) [1..<Suc e] s = Inr se \<and>
        files s' (epoch_file e) =
          Some (Checkpoint
            \<lparr> ck_model_class = model_class a, ck_model_kwargs = model_kwargs a,
              ck_model_state_dict = params se, ck_optimizer_state_dict = opt se,
              ck_epoch = e, ck_val_pnsr = val_psnr se ! (e - 1),
              ck_val_loss = val_loss_avg se \<rparr>)"
    using s'(3) by (simp add: checkpoint_of_def)
  have f: "{name. \<exists>c. files s' name = Some (Checkpoint c)} = epoch_file ` {1..k} \<and>
        card {name. \<exists>c. files s' name = Some (Checkpoint c)} = k"
    if fresh: "\<forall>name c. files s name \<noteq> Some (Checkpoint c)"
  proof -
    have 1: "{name. \<exists>c. files s' name = Some (Checkpoint c)} \<subseteq> epoch_file ` {1..k}"
      using s'(4) fresh by blast
    have 2: "epoch_file ` {1..k} \<subseteq> {name. \<exists>c. files s' name = Some (Checkpoint c)}"
      using s'(3) by auto
    from 1 2 have e: "{name. \<exists>c. files s' name = Some (Checkpoint c)} = epoch_file ` {1..k}"
      by (rule subset_antisym)
    have "card (epoch_file ` {1..k}) = k"
      by (simp add: card_image epoch_file_inj_on)
    with e show ?thesis by simp
  qed
  show ?thesis using s'(1,2) d c f by blast
qed

theorem one_checkpoint_per_epoch_witness:
  "sized 5 (start_state example_torch example_args ''20240101_000000'' Map.empty) \<and>
   (5::nat) \<le> 5 \<and> (3::nat) \<in> {1..5} \<and>
   (\<forall>name c. files (start_state example_torch example_args ''20240101_000000'' Map.empty) name
       \<noteq> Some (Checkpoint c)) \<and>
   (case for_each (epoch_body example_torch example_args (train_batches example_torch example_args)
                    (val_batches example_torch example_args)) [1..<Suc 5]
           (start_state example_torch example_args ''20240101_000000'' Map.empty) of
      Inl e \<Rightarrow> False
    | Inr s' \<Rightarrow>
        saved (trace s') =
          [''epoch_0001.pth'', ''epoch_0002.pth'', ''epoch_0003.pth'', ''epoch_0004.pth'',
           ''epoch_0005.pth''] \<and>
        files s' ''epoch_0003.pth'' =
          Some (Checkpoint
            \<lparr> ck_model_class = ''UNet3D'', ck_model_kwargs = [],
              ck_model_state_dict = 3, ck_optimizer_state_dict = (),
              ck_epoch = 3, ck_val_pnsr = Fin (6 / 10),
              ck_val_loss = [Fin (1 / 2), Fin (1 / 3), Fin (1 / 4), Fin 0, Fin 0] \<rparr>) \<and>
        card {name. \<exists>c. files s' name = Some (Checkpoint c)} = 5)"
proof -
  let ?s = "start_state example_torch example_args ''20240101_000000'' Map.empty"
  have z: "sized 5 ?s"
    using start_state_sized [of example_args example_torch "''20240101_000000''" Map.empty]
    by (simp add: example_args_def)
  have fresh: "\<forall>name c. files ?s name \<noteq> Some (Checkpoint c)"
    by (simp add: start_state_def Let_def)
  have r: "case for_each (epoch_body example_torch example_args (train_batches example_torch example_args)
                    (val_batches example_torch example_args)) [1..<Suc 5] ?s of
      Inl e \<Rightarrow> False
    | Inr s' \<Rightarrow>
        saved (trace s') =
          [''epoch_0001.pth'', ''epoch_0002.pth'', ''epoch_0003.pth'', ''epoch_0004.pth'',
           ''epoch_0005.pth''] \<and>
        files s' ''epoch_0003.pth'' =
          Some (Checkpoint
            \<lparr> ck_model_class = ''UNet3D'', ck_model_kwargs = [],
              ck_model_state_dict = 3, ck_optimizer_state_dict = (),
              ck_epoch = 3, ck_val_pnsr = Fin (6 / 10),
              ck_val_loss = [Fin (1 / 2), Fin (1 / 3), Fin (1 / 4), Fin 0, Fin 0] \<rparr>)"
    by code_simp
  show ?thesis
    using one_checkpoint_per_epoch [OF z order_refl, of example_torch example_args
        "train_batches example_torch example_args" "val_batches example_torch example_args"]
      r z fresh
    by (auto split: sum.splits)
qed

section \<open>The mode of the model\<close>

text \<open>
  Claim C9. In a run of at least two epochs, \<^verbatim>\<open>model.train()\<close> is called once, before the
  loop, and \<^verbatim>\<open>model.eval()\<close> once in every epoch, before its validation batches; nothing
  switches the model back. So the forward passes of the training batches are in training
  mode in the first epoch and in evaluation mode in every later epoch, and the model is in
  evaluation mode at the end.
\<close>

theorem later_epochs_train_in_evaluation_mode:
  assumes "parse_args registry_keys json_loads c = Inr a"
    and "0 < tr_batch_size a" and "0 < val_batch_size a" and "2 \<le> num_epochs a"
  shows "\<exists>s'. script t registry_keys json_loads run_id run_dir c = Inr s' \<and>
     mode_view (trace s') =
       SetMode Training #
       concat (map (\<lambda>e.
         replicate (length (train_batches t a e))
           (Forward (if e = 1 then Training else Evaluation) True) @
         SetMode Evaluation #
         replicate (length (val_batches t a e)) (Forward Evaluation False)) (epochs a)) \<and>
     length (filter (\<lambda>ev. ev = SetMode Training) (trace s')) = 1 \<and>
     length (filter (\<lambda>ev. ev = SetMode Evaluation) (trace s')) = nat (num_epochs a) \<and>
     mode s' = Evaluation"
proof -
  let ?s = "start_state t a run_id run_dir"
  have run: "script t registry_keys json_loads run_id run_dir c =
      training t a (train_batches t a) (val_batches t a) ?s"
    using assms by (intro script_training) simp_all
  from training_modes [where s = ?s and a = a and t = t and train_loader = "train_batches t a"
      and val_loader = "val_batches t a", OF start_state_sized]
  obtain s' where s': "training t a (train_batches t a) (val_batches t a) ?s = Inr s'"
    "mode s' = (if num_epochs a \<le> 0 then Training else Evaluation)"
    "mode_view (trace s') =
       SetMode Training # mode_trace Training True (train_batches t a) (val_batches t a) (epochs a)"
    by (auto simp add: start_state_views)
  have 1: "length (filter (\<lambda>ev. ev = SetMode Training) (mode_view (trace s'))) = 1"
    unfolding s'(3) by (simp add: mode_trace_switches)
  have 2: "length (filter (\<lambda>ev. ev = SetMode Evaluation) (mode_view (trace s'))) = nat (num_epochs a)"
    unfolding s'(3) by (simp add: mode_trace_switches epochs_def)
  have 3: "filter (\<lambda>ev. ev = SetMode m) (mode_view (trace s')) = filter (\<lambda>ev. ev = SetMode m) (trace s')"
    for m by (rule filter_mode_view) simp
  show ?thesis
    using run s'(1,2) s'(3) [unfolded mode_trace_def] 1 2 assms(4) unfolding 3
    by simp
qed

theorem later_epochs_train_in_evaluation_mode_witness:
  "parse_args [''UNet3D''] example_loads example_cmdline = Inr example_args \<and>
   0 < tr_batch_size example_args \<and> 0 < val_batch_size example_args \<and>
   2 \<le> num_epochs example_args \<and>
   (case script example_torch [''UNet3D''] example_loads ''20240101_000000'' Map.empty
           example_cmdline of
      Inl e \<Rightarrow> False
    | Inr s' \<Rightarrow>
        mode_view (trace s') =
          [SetMode Training,
           Forward Training True, SetMode Evaluation, Forward Evaluation False,
           Forward Evaluation True, SetMode Evaluation, Forward Evaluation False,
           Forward Evaluation True, SetMode Evaluation, Forward Evaluation False,
           Forward Evaluation True, SetMode Evaluation, Forward Evaluation False,
           Forward Evaluation True, SetMode Evaluation, Forward Evaluation False] \<and>
        length (filter (\<lambda>ev. ev = SetMode Training) (trace s')) = 1 \<and>
        mode s' = Evaluation)"
proof -
  have p: "parse_args [''UNet3D''] example_loads example_cmdline = Inr example_args"
    by (simp add: parse_args_def example_cmdline_def example_args_def)
  have h: "0 < tr_batch_size example_args" "0 < val_batch_size example_args"
    "2 \<le> num_epochs example_args"
    by (simp_all add: example_args_def)
  have r: "case script example_torch [''UNet3D''] example_loads ''20240101_000000'' Map.empty
           example_cmdline of
      Inl e \<Rightarrow> False
    | Inr s' \<Rightarrow>
        mode_view (trace s') =
          [SetMode Training,
           Forward Training True, SetMode Evaluation, Forward Evaluation False,
           Forward Evaluation True, SetMode Evaluation, Forward Evaluation False,
           Forward Evaluation True, SetMode Evaluation, Forward Evaluation False,
           Forward Evaluation True, SetMode Evaluation, Forward Evaluation False,
           Forward Evaluation True, SetMode Evaluation, Forward Evaluation False]"
    by code_simp
  show ?thesis
    using later_epochs_train_in_evaluation_mode [OF p h, of example_torch "''20240101_000000''"
        Map.empty] r p h
    by (auto split: sum.splits)
qed

section \<open>The validation batches\<close>

text \<open>
  Claim C5. In every epoch the validation batches follow the training batches, and they
  change neither the parameters of the model nor the state of the optimizer: no gradient
  is zeroed or computed and no optimizer step is made, so the parameters after the
  validation are those of the last optimizer step of the epoch. The forward passes of the
  validation batches run with gradient tracking off, and tracking is afterwards what it was
  before the epoch.
\<close>

theorem validation_changes_no_parameter:
  assumes "sized n s" and "0 < epoch" and "epoch \<le> n"
  shows "\<exists>s1 s2. train_epoch t a epoch tr_batches s = Inr s1 \<and>
     validate t epoch va_batches s1 = Inr s2 \<and>
     params s2 = params s1 \<and> opt s2 = opt s1 \<and>
     update_view (trace s2) = update_view (trace s1) \<and>
     (tr_batches \<noteq> [] \<longrightarrow> last (update_view (trace s2)) = Step (params s2)) \<and>
     mode_view (trace s2) =
       mode_view (trace s1) @ SetMode Evaluation #
       replicate (length va_batches) (Forward Evaluation False) \<and>
     grad_enabled s2 = grad_enabled s"
proof -
  from train_epoch_ok [OF assms, of t a tr_batches]
  obtain s1 where 1: "train_epoch t a epoch tr_batches s = Inr s1" "sized n s1"
    "grad_enabled s1 = grad_enabled s"
    by blast
  from validate_ok [OF 1(2) assms(2,3), of t va_batches]
  obtain s2 where 2: "validate t epoch va_batches s1 = Inr s2" "frozen s1 s2"
    "grad_enabled s2 = grad_enabled s1"
    "mode_view (trace s2) =
       mode_view (trace s1) @ SetMode Evaluation #
       replicate (length va_batches) (Forward Evaluation False)"
    by blast
  have 3: "last (update_view (trace s2)) = Step (params s2)" if "tr_batches \<noteq> []"
    using train_epoch_updates [OF 1(1) that] 2(2) by (simp add: frozen_def)
  show ?thesis
    using 1(1,3) 2 3 by (simp add: frozen_def)
qed

theorem validation_changes_no_parameter_witness:
  "sized 5 (start_state example_torch example_args ''20240101_000000'' Map.empty) \<and>
   (0::nat) < 1 \<and> (1::nat) \<le> 5 \<and> [[''s1'', ''s2'']] \<noteq> [] \<and>
   (case train_epoch example_torch example_args 1 [[''s1'', ''s2'']]
           (start_state example_torch example_args ''20240101_000000'' Map.empty) of
      Inl e \<Rightarrow> False
    | Inr s1 \<Rightarrow>
        (case validate example_torch 1 [[''s3'']] s1 of
           Inl e \<Rightarrow> False
         | Inr s2 \<Rightarrow>
             params s1 = 1 \<and> params s2 = 1 \<and> opt s2 = opt s1 \<and>
             update_view (trace s2) = [ZeroGrad, Backward, Step 1] \<and>
             mode_view (trace s2) =
               [Forward Training True, SetMode Evaluation, Forward Evaluation False] \<and>
             grad_enabled s2))"
proof -
  let ?s = "start_state example_torch example_args ''20240101_000000'' Map.empty"
  have z: "sized 5 ?s"
    using start_state_sized [of example_args example_torch "''20240101_000000''" Map.empty]
    by (simp add: example_args_def)
  have h: "(0::nat) < 1" "(1::nat) \<le> 5" by simp_all
  have r: "case train_epoch example_torch example_args 1 [[''s1'', ''s2'']] ?s of
      Inl e \<Rightarrow> False
    | Inr s1 \<Rightarrow>
        (case validate example_torch 1 [[''s3'']] s1 of
           Inl e \<Rightarrow> False
         | Inr s2 \<Rightarrow>
             params s1 = 1 \<and> 
             update_view (trace s2) = [ZeroGrad, Backward, Step 1] \<and>
             mode_view (trace s2) =
               [Forward Training True, SetMode Evaluation, Forward Evaluation False] \<and>
             grad_enabled s2)"
    by code_simp
  show ?thesis
    using validation_changes_no_parameter [OF z h, of example_torch example_args
        "[[''s1'', ''s2'']]" "[[''s3'']]"] r z
    by (auto split: sum.splits)
qed

section \<open>A listing shorter than the split\<close>

text \<open>
  Claim C7. When fewer directories are found than the training and validation samples asked
  for together, nothing is raised: the validation list is what is left of the sorted
  listing after the training directories, fewer than asked for, and empty when the
  training list takes all of them. The run goes on with this list: it is written to
  \<^verbatim>\<open>val_dirs.json\<close>, and every epoch runs and saves its checkpoint.
\<close>

theorem short_listing_shortens_validation:
  assumes "parse_args registry_keys json_loads c = Inr a"
    and "0 < tr_batch_size a" and "0 < val_batch_size a" and "0 \<le> num_epochs a"
    and "0 < num_validation_samples a"
    and "int (length (glob t (count_level a))) < num_training_samples a + num_validation_samples a"
  shows "\<exists>s'. script t registry_keys json_loads run_id run_dir c = Inr s' \<and>
     files s' ''val_dirs.json'' =
       Some (JsonDirs (val_dirs a (all_data_dirs (glob t (count_level a))))) \<and>
     saved (trace s') = map epoch_file (epochs a) \<and>
     int (length (val_dirs a (all_data_dirs (glob t (count_level a))))) < num_validation_samples a \<and>
     (0 \<le> num_training_samples a \<longrightarrow>
        val_dirs a (all_data_dirs (glob t (count_level a))) =
          drop (nat (num_training_samples a)) (all_data_dirs (glob t (count_level a)))) \<and>
     (int (length (glob t (count_level a))) \<le> num_training_samples a \<longrightarrow>
        val_dirs a (all_data_dirs (glob t (count_level a))) = [])"
proof -
  let ?dirs = "all_data_dirs (glob t (count_level a))"
  have l: "length ?dirs = length (glob t (count_level a))"
    by (simp add: all_data_dirs_def)
  have s: "int (length ?dirs) < num_training_samples a + num_validation_samples a"
    using assms(6) l by simp
  note v = val_dirs_short [OF assms(5) s]
  from script_completes [OF assms(1-4), of t run_id run_dir]
  obtain s' where "script t registry_keys json_loads run_id run_dir c = Inr s'"
    "saved (trace s') = map epoch_file (epochs a)"
    "files s' ''val_dirs.json'' = Some (JsonDirs (val_dirs a ?dirs))"
    by blast
  then show ?thesis using v l by auto
qed

theorem short_listing_shortens_validation_witness:
  "parse_args [''UNet3D''] example_loads
     (example_cmdline\<lparr>c_num_training_samples := 3, c_num_validation_samples := 4\<rparr>) =
     Inr (example_args\<lparr>num_training_samples := 3, num_validation_samples := 4\<rparr>) \<and>
   int (length (glob example_torch 1)) < 3 + 4 \<and>
   (case script example_torch [''UNet3D''] example_loads ''20240101_000000'' Map.empty
           (example_cmdline\<lparr>c_num_training_samples := 3, c_num_validation_samples := 4\<rparr>) of
      Inl e \<Rightarrow> False
    | Inr s' \<Rightarrow>
        files s' ''train_dirs.json'' = Some (JsonDirs [''s1'', ''s2'', ''s3'']) \<and>
        files s' ''val_dirs.json'' = Some (JsonDirs [''s4'']) \<and>
        saved (trace s') = map epoch_file (epochs example_args))"
proof -
  let ?c = "example_cmdline\<lparr>c_num_training_samples := 3, c_num_validation_samples := 4\<rparr>"
  let ?a = "example_args\<lparr>num_training_samples := 3, num_validation_samples := 4\<rparr>"
  have p: "parse_args [''UNet3D''] example_loads ?c = Inr ?a"
    by (simp add: parse_args_def example_cmdline_def example_args_def)
  have h: "0 < tr_batch_size ?a" "0 < val_batch_size ?a" "0 \<le> num_epochs ?a"
    "0 < num_validation_samples ?a"
    "int (length (glob example_torch (count_level ?a))) <
       num_training_samples ?a + num_validation_samples ?a"
    by (simp_all add: example_args_def example_torch_def)
  have r: "case script example_torch [''UNet3D''] example_loads ''20240101_000000'' Map.empty ?c of
      Inl e \<Rightarrow> False
    | Inr s' \<Rightarrow>
        files s' ''train_dirs.json'' = Some (JsonDirs [''s1'', ''s2'', ''s3'']) \<and>
        files s' ''val_dirs.json'' = Some (JsonDirs [''s4''])"
    by code_simp
  show ?thesis
    using short_listing_shortens_validation [OF p h, of "''20240101_000000''" Map.empty] r p
    by (auto simp add: example_torch_def epochs_def example_args_def split: sum.splits)
qed

section \<open>No validation data\<close>

text \<open>
  Claim C8. When the validation list is empty, and the dataset of no directory has no
  sample, the run completes: the validation PSNR of every epoch is the mean of an empty
  tensor, which is NaN, every epoch saves its checkpoint and writes the figure of the
  metrics, and the figure at the end plots these NaN values.
\<close>

theorem no_validation_data_does_not_crash:
  assumes "parse_args registry_keys json_loads c = Inr a"
    and "0 < tr_batch_size a" and "0 < val_batch_size a" and "0 \<le> num_epochs a"
    and "val_dirs a (all_data_dirs (glob t (count_level a))) = []"
    and "\<forall>k. dataset t [] False k = []"
  shows "\<exists>s'. script t registry_keys json_loads run_id run_dir c = Inr s' \<and>
     val_psnr s' = replicate (nat (num_epochs a)) NaN \<and>
     saved (trace s') = map epoch_file (epochs a) \<and>
     figures (trace s') = replicate (nat (num_epochs a)) ''current_metrics.pdf'' \<and>
     (0 < num_epochs a \<longrightarrow>
        files s' ''current_metrics.pdf'' =
          Some (Figure (train_loss_avg s') (val_loss_avg s')
                  (replicate (nat (num_epochs a)) NaN)))"
proof -
  let ?n = "nat (num_epochs a)"
  have e: "val_batches t a k = []" for k
    using assms(5,6) by (simp add: val_batches_def loader_batches_def)
  from script_completes [OF assms(1-4), of t run_id run_dir]
  obtain s' where s': "script t registry_keys json_loads run_id run_dir c = Inr s'"
    "sized ?n s'"
    "saved (trace s') = map epoch_file (epochs a)"
    "figures (trace s') = replicate ?n ''current_metrics.pdf''"
    "\<forall>e. 1 \<le> e \<and> e \<le> ?n \<and> val_batches t a e = [] \<longrightarrow> val_psnr s' ! (e - 1) = NaN"
    "0 < num_epochs a \<longrightarrow> files s' ''current_metrics.pdf'' = Some (figure_of ?n s')"
    by blast
  have v: "val_psnr s' = replicate ?n NaN"
  proof (rule nth_equalityI)
    show "length (val_psnr s') = length (replicate ?n NaN)"
      using s'(2) by (simp add: sized_def)
  next
    fix i
    assume "i < length (val_psnr s')"
    then have i: "i < ?n" using s'(2) by (simp add: sized_def)
    then have "val_psnr s' ! (Suc i - 1) = NaN"
      using s'(5) e by (intro s'(5) [rule_format]) simp
    then show "val_psnr s' ! i = replicate ?n NaN ! i"
      using i by simp
  qed
  have f: "figure_of ?n s' =
      Figure (train_loss_avg s') (val_loss_avg s') (replicate ?n NaN)"
    using s'(2) v by (simp add: figure_of_def sized_def)
  show ?thesis using s'(1,3,4,6) v f by simp
qed

theorem no_validation_data_does_not_crash_witness:
  "parse_args [''UNet3D''] example_loads (example_cmdline\<lparr>c_num_validation_samples := 0\<rparr>) =
     Inr (example_args\<lparr>num_validation_samples := 0\<rparr>) \<and>
   val_dirs (example_args\<lparr>num_validation_samples := 0\<rparr>)
     (all_data_dirs (glob example_torch 1)) = [] \<and>
   (\<forall>k. dataset example_torch [] False k = []) \<and>
   (case script example_torch [''UNet3D''] example_loads ''20240101_000000'' Map.empty
           (example_cmdline\<lparr>c_num_validation_samples := 0\<rparr>) of
      Inl e \<Rightarrow> False
    | Inr s' \<Rightarrow>
        val_psnr s' = [NaN, NaN, NaN, NaN, NaN] \<and>
        val_loss_avg s' = [NaN, NaN, NaN, NaN, NaN] \<and>
        link_targets (trace s') = [''epoch_0001.pth''] \<and>
        figures (trace s') = replicate 5 ''current_metrics.pdf'')"
proof -
  let ?c = "example_cmdline\<lparr>c_num_validation_samples := 0\<rparr>"
  let ?a = "example_args\<lparr>num_validation_samples := 0\<rparr>"
  have p: "parse_args [''UNet3D''] example_loads ?c = Inr ?a"
    by (simp add: parse_args_def example_cmdline_def example_args_def)
  have h: "0 < tr_batch_size ?a" "0 < val_batch_size ?a" "0 \<le> num_epochs ?a"
    by (simp_all add: example_args_def)
  have g: "count_level ?a = 1" by (simp add: example_args_def)
  have v: "val_dirs ?a (all_data_dirs (glob example_torch 1)) = []"
    by (simp add: val_dirs_def py_slice_def slice_bound_def example_args_def Let_def)
  have d: "\<forall>k. dataset example_torch [] False k = []"
    by (simp add: example_torch_def)
  have r: "case script example_torch [''UNet3D''] example_loads ''20240101_000000'' Map.empty ?c of
      Inl e \<Rightarrow> False
    | Inr s' \<Rightarrow>
        val_loss_avg s' = [NaN, NaN, NaN, NaN, NaN] \<and>
        link_targets (trace s') = [''epoch_0001.pth'']"
    by code_simp
  have n: "nat (num_epochs ?a) = 5" "replicate 5 NaN = [NaN, NaN, NaN, NaN, NaN]"
    by (simp_all add: example_args_def numeral_eq_Suc)
  show ?thesis
    using no_validation_data_does_not_crash [OF p h v [folded g] d, of "''20240101_000000''" Map.empty]
      r p v d unfolding n(1)
    by (auto simp add: n(2) split: sum.splits)
qed

section \<open>Two runs that differ in the flag\<close>

text \<open>
  Claim C6. Two runs of the script that differ only in \<^verbatim>\<open>print_gradient_norms\<close> end the
  same way, with the same exception or both normally. When they end normally, the
  parameters, the state of the optimizer, the sequence of the parameter updates, the
  losses and the validation PSNR of the epochs, the checkpoints and the best model are
  the same. The run without the flag prints no line of gradient norms, and apart from
  the write of \<^verbatim>\<open>args.json\<close>, which records the flag, its effects are those of the
  run with the flag without these lines.
\<close>

theorem gradient_norm_flag_only_prints:
  "same_end same_training
     (script t registry_keys json_loads run_id run_dir (c\<lparr>c_print_gradient_norms := True\<rparr>))
     (script t registry_keys json_loads run_id run_dir (c\<lparr>c_print_gradient_norms := False\<rparr>)) \<and>
   (\<forall>s s'.
      script t registry_keys json_loads run_id run_dir (c\<lparr>c_print_gradient_norms := True\<rparr>) = Inr s \<and>
      script t registry_keys json_loads run_id run_dir (c\<lparr>c_print_gradient_norms := False\<rparr>) = Inr s'
      \<longrightarrow>
      params s' = params s \<and> opt s' = opt s \<and>
      update_view (trace s') = update_view (trace s) \<and>
      train_loss_avg s' = train_loss_avg s \<and> val_loss_avg s' = val_loss_avg s \<and>
      val_psnr s' = val_psnr s \<and>
      (\<forall>e. files s' (epoch_file e) = files s (epoch_file e)) \<and>
      files s' ''best.pth'' = files s ''best.pth'' \<and>
      filter is_grad_norm_line (trace s') = [] \<and>
      filter (\<lambda>e. \<not> is_args_write e) (trace s') =
        filter (\<lambda>e. \<not> is_grad_norm_line e \<and> \<not> is_args_write e) (trace s))"
proof -
  let ?on = "script t registry_keys json_loads run_id run_dir (c\<lparr>c_print_gradient_norms := True\<rparr>)"
  let ?off = "script t registry_keys json_loads run_id run_dir (c\<lparr>c_print_gradient_norms := False\<rparr>)"
  have r: "same_end same_training ?on ?off"
    using flag_script [of t registry_keys json_loads run_id run_dir
        "c\<lparr>c_print_gradient_norms := True\<rparr>"]
    by simp
  have "params s' = params s \<and> opt s' = opt s \<and>
      update_view (trace s') = update_view (trace s) \<and>
      train_loss_avg s' = train_loss_avg s \<and> val_loss_avg s' = val_loss_avg s \<and>
      val_psnr s' = val_psnr s \<and>
      (\<forall>e. files s' (epoch_file e) = files s (epoch_file e)) \<and>
      files s' ''best.pth'' = files s ''best.pth'' \<and>
      filter is_grad_norm_line (trace s') = [] \<and>
      filter (\<lambda>e. \<not> is_args_write e) (trace s') =
        filter (\<lambda>e. \<not> is_grad_norm_line e \<and> \<not> is_args_write e) (trace s)"
    if "?on = Inr s" "?off = Inr s'" for s s'
  proof -
    from r that have t: "same_training s s'" by simp
    then have f: "filter (\<lambda>e. \<not> is_args_write e) (trace s') =
        filter (\<lambda>e. \<not> is_grad_norm_line e \<and> \<not> is_args_write e) (trace s)"
      by (simp add: flag_defs)
    from t filter_grad_norm_lines [OF f] show ?thesis
      by (simp add: flag_defs)
  qed
  with r show ?thesis by blast
qed

theorem gradient_norm_flag_only_prints_witness:
  "case (script example_torch [''UNet3D''] example_loads ''20240101_000000'' Map.empty
           (example_cmdline\<lparr>c_print_gradient_norms := True\<rparr>),
         script example_torch [''UNet3D''] example_loads ''20240101_000000'' Map.empty
           (example_cmdline\<lparr>c_print_gradient_norms := False\<rparr>)) of
      (Inr s, Inr s') \<Rightarrow>
        params s = 5 \<and> params s' = 5 \<and>
        update_view (trace s') = update_view (trace s) \<and>
        filter is_grad_norm_line (trace s) =
          [Print (GradNorm ''weight'' False), Print Blank,
           Print (GradNorm ''weight'' False), Print Blank,
           Print (GradNorm ''weight'' False), Print Blank,
           Print (GradNorm ''weight'' False), Print Blank,
           Print (GradNorm ''weight'' False), Print Blank] \<and>
        filter is_grad_norm_line (trace s') = [] \<and>
        files s' (epoch_file 5) = files s (epoch_file 5)
    | _ \<Rightarrow> False"
proof -
  let ?on = "script example_torch [''UNet3D''] example_loads ''20240101_000000'' Map.empty
           (example_cmdline\<lparr>c_print_gradient_norms := True\<rparr>)"
  let ?off = "script example_torch [''UNet3D''] example_loads ''20240101_000000'' Map.empty
           (example_cmdline\<lparr>c_print_gradient_norms := False\<rparr>)"
  have r_on: "case ?on of
      Inr s \<Rightarrow>
        params s = 5 \<and>
        filter is_grad_norm_line (trace s) =
          [Print (GradNorm ''weight'' False), Print Blank,
           Print (GradNorm ''weight'' False), Print Blank,
           Print (GradNorm ''weight'' False), Print Blank,
           Print (GradNorm ''weight'' False), Print Blank,
           Print (GradNorm ''weight'' False), Print Blank]
    | Inl e \<Rightarrow> False"
    by code_simp
  have r_off: "case ?off of Inr s \<Rightarrow> params s = 5 | Inl e \<Rightarrow> False"
    by code_simp
  from r_on obtain s where on: "?on = Inr s" "params s = 5"
    "filter is_grad_norm_line (trace s) =
          [Print (GradNorm ''weight'' False), Print Blank,
           Print (GradNorm ''weight'' False), Print Blank,
           Print (GradNorm ''weight'' False), Print Blank,
           Print (GradNorm ''weight'' False), Print Blank,
           Print (GradNorm ''weight'' False), Print Blank]"
    by (cases ?on) simp_all
  from r_off obtain s' where off: "?off = Inr s'" "params s' = 5"
    by (cases ?off) simp_all
  note t = gradient_norm_flag_only_prints [of example_torch "[''UNet3D'']" example_loads
        "''20240101_000000''" Map.empty example_cmdline]
  from t [THEN conjunct2, rule_format, OF conjI [OF on(1) off(1)]]
  have c: "update_view (trace s') = update_view (trace s)"
    "filter is_grad_norm_line (trace s') = []"
    "files s' (epoch_file 5) = files s (epoch_file 5)"
    by simp_all
  show ?thesis
    unfolding on(1) off(1) using on(2,3) off(2) c by simp
qed

end
